theory Spec2Isabelle
  imports Main "HOL-Library.Char_ord" "HOL-Library.List_Lexorder" "HOL-Library.AList"
    "HOL-Library.Countable"
begin

section \<open>The gallery indexer (scripts/generate\_indexes.py)\<close>

text \<open>
  A shallow embedding of \<^verbatim>\<open>ImageProcessor\<close> and \<^verbatim>\<open>main\<close>. The directory tree below
  the gallery root, the clock and the console are an explicit state; every exception of
  the Python is a value \<open>Inl e\<close>; the libraries the script calls (PIL, hashlib, json,
  the ImageMagick executable) are the fields of a record \<open>env\<close>.
\<close>

subsection \<open>Python values read from a manifest\<close>

text \<open>
  What \<^verbatim>\<open>json.load\<close> returns: \<^verbatim>\<open>None\<close>, a bool, an int, a str, a list, or a dict
  (its items in insertion order, the keys distinct). Numbers with a fraction are outside
  the model.
\<close>

datatype json =
    JNull
  | JBool bool
  | JInt int
  | JStr string
  | JArr "json list"
  | JObj "(string \<times> json) list"

text \<open>Python's \<^verbatim>\<open>==\<close>: \<^verbatim>\<open>True == 1\<close>, lists compare element by element, dicts compare
  as sets of items whatever the order of the keys: both have the same keys, and under
  each key equal values (an item list is read as \<open>map_of\<close> reads it).\<close>

fun py_eq :: "json \<Rightarrow> json \<Rightarrow> bool" where
  "py_eq JNull JNull = True"
| "py_eq (JBool a) (JBool b) = (a = b)"
| "py_eq (JBool a) (JInt n) = (n = (if a then 1 else 0))"
| "py_eq (JInt n) (JBool a) = (n = (if a then 1 else 0))"
| "py_eq (JInt m) (JInt n) = (m = n)"
| "py_eq (JStr s) (JStr t) = (s = t)"
| "py_eq (JArr xs) (JArr ys) = list_all2 py_eq xs ys"
| "py_eq (JObj a) (JObj b) =
     (list_all (\<lambda>kv. map_of a (fst kv) \<noteq> None) b \<and>
      list_all (\<lambda>kv. map_of a (fst kv) \<noteq> Some (snd kv) \<or>
                      (case map_of b (fst kv) of None \<Rightarrow> False
                                               | Some v' \<Rightarrow> py_eq (snd kv) v')) a)"
| "py_eq _ _ = False"

text \<open>Truthiness, as \<^verbatim>\<open>not x\<close> and \<^verbatim>\<open>x and ...\<close> test it.\<close>

fun py_truthy :: "json \<Rightarrow> bool" where
  "py_truthy JNull = False"
| "py_truthy (JBool b) = b"
| "py_truthy (JInt n) = (n \<noteq> 0)"
| "py_truthy (JStr s) = (s \<noteq> [])"
| "py_truthy (JArr xs) = (xs \<noteq> [])"
| "py_truthy (JObj kvs) = (kvs \<noteq> [])"

datatype error =
    ValueError
  | AttributeError
  | TypeError
  | KeyError
  | FileNotFoundError
  | NotADirectoryError
  | IsADirectoryError
  | FileExistsError
  | UnidentifiedImageError

text \<open>\<^verbatim>\<open>x.get(key, default)\<close>: only a dict has the method.\<close>

fun py_get :: "json \<Rightarrow> string \<Rightarrow> json \<Rightarrow> error + json" where
  "py_get (JObj kvs) k d = Inr (case map_of kvs k of None \<Rightarrow> d | Some v \<Rightarrow> v)"
| "py_get _ k d = Inl AttributeError"

text \<open>\<^verbatim>\<open>x[key]\<close> with a str key.\<close>

fun py_subscript :: "json \<Rightarrow> string \<Rightarrow> error + json" where
  "py_subscript (JObj kvs) k = (case map_of kvs k of None \<Rightarrow> Inl KeyError | Some v \<Rightarrow> Inr v)"
| "py_subscript _ k = Inl TypeError"

text \<open>\<^verbatim>\<open>for img in x\<close>: a list gives its elements, a dict its keys, a str its characters.\<close>

fun py_iter :: "json \<Rightarrow> error + json list" where
  "py_iter (JArr xs) = Inr xs"
| "py_iter (JObj kvs) = Inr (map (\<lambda>kv. JStr (fst kv)) kvs)"
| "py_iter (JStr s) = Inr (map (\<lambda>c. JStr [c]) s)"
| "py_iter _ = Inl TypeError"

fun py_hashable :: "json \<Rightarrow> bool" where
  "py_hashable (JArr xs) = False"
| "py_hashable (JObj kvs) = False"
| "py_hashable _ = True"

subsection \<open>Strings and path names\<close>

text \<open>\<^verbatim>\<open>str.lower\<close> on ASCII letters (other characters are left as they are).\<close>

definition lower_char :: "char \<Rightarrow> char" where
  "lower_char c =
     (case map_of (zip ''ABCDEFGHIJKLMNOPQRSTUVWXYZ'' ''abcdefghijklmnopqrstuvwxyz'') c of
        None \<Rightarrow> c
      | Some l \<Rightarrow> l)"

definition lower :: "string \<Rightarrow> string" where
  "lower s = map lower_char s"

text \<open>\<^verbatim>\<open>str.rfind\<close> of one character.\<close>

fun rfind :: "char \<Rightarrow> string \<Rightarrow> nat option" where
  "rfind c [] = None"
| "rfind c (x # xs) =
     (case rfind c xs of
        Some i \<Rightarrow> Some (Suc i)
      | None \<Rightarrow> if x = c then Some 0 else None)"

text \<open>\<^verbatim>\<open>PurePath.suffix\<close>: the name from its last dot on, when that dot is neither the
  first nor the last character.\<close>

definition suffix :: "string \<Rightarrow> string" where
  "suffix name =
     (case rfind (CHR ''.'') name of
        None \<Rightarrow> []
      | Some i \<Rightarrow> if 0 < i \<and> i + 1 < length name then drop i name else [])"

text \<open>\<^verbatim>\<open>needle in haystack\<close> for strings.\<close>

fun contains :: "string \<Rightarrow> string \<Rightarrow> bool" where
  "contains needle [] = (needle = [])"
| "contains needle (c # cs) = (take (length needle) (c # cs) = needle \<or> contains needle cs)"

text \<open>A path is the list of its components below the gallery root; \<^verbatim>\<open>Path.name\<close> is
  the last one.\<close>

type_synonym path = "string list"

definition pname :: "path \<Rightarrow> string" where
  "pname p = (case rev p of [] \<Rightarrow> [] | c # _ \<Rightarrow> c)"

subsection \<open>The directory tree, the clock and the console\<close>

text \<open>A file has its bytes and its modification time; a directory has its modification
  time and its entries in the order \<^verbatim>\<open>iterdir\<close> yields them.\<close>

datatype node =
    File string int
  | Dir int "(string \<times> node) list"

fun st_mtime :: "node \<Rightarrow> int" where
  "st_mtime (File b t) = t"
| "st_mtime (Dir t es) = t"

fun lookup :: "node \<Rightarrow> path \<Rightarrow> node option" where
  "lookup n [] = Some n"
| "lookup (File b t) (c # p) = None"
| "lookup (Dir t es) (c # p) = (case map_of es c of None \<Rightarrow> None | Some n \<Rightarrow> lookup n p)"

text \<open>\<open>put t p new n\<close> stores \<open>new\<close> at path \<open>p\<close> of the tree \<open>n\<close>: an existing entry
  keeps its place in the listing, a new one is added at the end and its directory's
  modification time becomes \<open>t\<close>. \<open>None\<close> when the parent is missing or is a file.\<close>

fun put :: "int \<Rightarrow> path \<Rightarrow> node \<Rightarrow> node \<Rightarrow> node option" where
  "put t [] new n = None"
| "put t (c # p) new (File b m) = None"
| "put t [c] new (Dir m es) =
     (case map_of es c of
        None \<Rightarrow> Some (Dir t (es @ [(c, new)]))
      | Some old \<Rightarrow> Some (Dir m (AList.update c new es)))"
| "put t (c # d # p) new (Dir m es) =
     (case map_of es c of
        None \<Rightarrow> None
      | Some ch \<Rightarrow>
          (case put t (d # p) new ch of
             None \<Rightarrow> None
           | Some ch' \<Rightarrow> Some (Dir m (AList.update c ch' es))))"

text \<open>What the script prints, and each start of the external \<^verbatim>\<open>convert\<close>.\<close>

datatype event =
    InvalidImage path
  | WouldCreateThumbnail path
  | ThumbnailUpToDate path
  | ConvertRun path path
  | ThumbnailError path string
  | IndexWarning path
  | RootIndexCreated nat
  | RootIndexUpToDate bool
  | AlbumIndexCreated string nat
  | AlbumIndexUpToDate string bool
  | ImageMagickError
  | ImageMagickMissing
  | Completed
  | ErrorMessage error

text \<open>\<open>fs\<close> is the node at the root path (\<open>None\<close>: the root path does not exist).\<close>

record state =
  fs :: "node option"
  clock :: int
  out :: "event list"

text \<open>The libraries: \<open>image_open\<close> is \<^verbatim>\<open>Image.open\<close> (the size it decodes, \<open>None\<close> when
  it raises), \<open>image_verify\<close> is \<^verbatim>\<open>img.verify()\<close> not raising, \<open>convert\<close> is the
  ImageMagick call on the bytes of the source with the target size (\<open>Inl\<close> its error
  stream on a non-zero exit, \<open>Inr\<close> the bytes of the thumbnail), \<open>convert_io_error\<close>
  its error stream when it cannot read its input or write its output,
  \<open>convert_version\<close> what \<^verbatim>\<open>convert -version\<close> prints (\<open>None\<close>: it cannot be run).\<close>

record env =
  sha256 :: "string \<Rightarrow> string"
  image_open :: "string \<Rightarrow> (int \<times> int) option"
  image_verify :: "string \<Rightarrow> bool"
  convert :: "string \<Rightarrow> int \<times> int \<Rightarrow> string + string"
  convert_io_error :: string
  convert_version :: "string option"
  json_load :: "string \<Rightarrow> json option"
  json_dump :: "json \<Rightarrow> string"
  isoformat :: "int \<Rightarrow> string"

record config =
  extensions :: "string list"
  thumbnail_size :: "int \<times> int"
  dry_run :: bool

type_synonym 'a run = "state \<Rightarrow> (error + 'a) \<times> state"

definition bindE :: "'a run \<Rightarrow> ('a \<Rightarrow> 'b run) \<Rightarrow> 'b run" where
  "bindE m f s = (case m s of (Inl e, s') \<Rightarrow> (Inl e, s') | (Inr x, s') \<Rightarrow> f x s')"

definition returnE :: "'a \<Rightarrow> 'a run" where
  "returnE x s = (Inr x, s)"

definition raiseE :: "error \<Rightarrow> 'a run" where
  "raiseE e s = (Inl e, s)"

definition liftE :: "(state \<Rightarrow> error + 'a) \<Rightarrow> 'a run" where
  "liftE f s = (f s, s)"

definition print :: "event \<Rightarrow> state \<Rightarrow> state" where
  "print ev s = s\<lparr>out := out s @ [ev]\<rparr>"

definition resolve :: "state \<Rightarrow> path \<Rightarrow> node option" where
  "resolve s p = (case fs s of None \<Rightarrow> None | Some r \<Rightarrow> lookup r p)"

fun is_dir_node :: "node option \<Rightarrow> bool" where
  "is_dir_node (Some (Dir t es)) = True"
| "is_dir_node _ = False"

fun is_file_node :: "node option \<Rightarrow> bool" where
  "is_file_node (Some (File b t)) = True"
| "is_file_node _ = False"

text \<open>\<^verbatim>\<open>Path.iterdir\<close>: the names of the entries, in the listing's order.\<close>

definition iterdir :: "state \<Rightarrow> path \<Rightarrow> error + string list" where
  "iterdir s p =
     (case resolve s p of
        None \<Rightarrow> Inl FileNotFoundError
      | Some (File b t) \<Rightarrow> Inl NotADirectoryError
      | Some (Dir t es) \<Rightarrow> Inr (map fst es))"

text \<open>\<^verbatim>\<open>Path.mkdir(exist_ok=True)\<close>.\<close>

definition mkdir_exist_ok :: "path \<Rightarrow> unit run" where
  "mkdir_exist_ok p s =
     (case resolve s p of
        Some (Dir t es) \<Rightarrow> (Inr (), s)
      | Some (File b t) \<Rightarrow> (Inl FileExistsError, s)
      | None \<Rightarrow>
          (case fs s of
             None \<Rightarrow> (Inl FileNotFoundError, s)
           | Some r \<Rightarrow>
               (case put (clock s) p (Dir (clock s) []) r of
                  None \<Rightarrow> (Inl FileNotFoundError, s)
                | Some r' \<Rightarrow> (Inr (), s\<lparr>fs := Some r'\<rparr>))))"

text \<open>\<^verbatim>\<open>open(path, "w")\<close>: the file is created, or truncated to no bytes, before anything
  is written to it.\<close>

definition open_w :: "path \<Rightarrow> unit run" where
  "open_w p s =
     (case resolve s p of
        Some (Dir t es) \<Rightarrow> (Inl IsADirectoryError, s)
      | _ \<Rightarrow>
          (case fs s of
             None \<Rightarrow> (Inl FileNotFoundError, s)
           | Some r \<Rightarrow>
               (case put (clock s) p (File [] (clock s)) r of
                  None \<Rightarrow> (Inl FileNotFoundError, s)
                | Some r' \<Rightarrow> (Inr (), s\<lparr>fs := Some r'\<rparr>))))"

text \<open>The bytes written through the open file, once they have all reached it.\<close>

definition write_all :: "path \<Rightarrow> string \<Rightarrow> unit run" where
  "write_all p b s =
     (case fs s of
        None \<Rightarrow> (Inl FileNotFoundError, s)
      | Some r \<Rightarrow>
          (case put (clock s) p (File b (clock s)) r of
             None \<Rightarrow> (Inl FileNotFoundError, s)
           | Some r' \<Rightarrow> (Inr (), s\<lparr>fs := Some r'\<rparr>)))"

text \<open>\<^verbatim>\<open>with open(path, "w", encoding="utf-8") as f: json.dump(index, f, indent=2)\<close>\<close>

definition dump_index :: "env \<Rightarrow> path \<Rightarrow> json \<Rightarrow> unit run" where
  "dump_index E p j = bindE (open_w p) (\<lambda>_. write_all p (json_dump E j))"

subsection \<open>ImageProcessor\<close>

text \<open>\<^verbatim>\<open>ext.lower() if ext.startswith(".") else f".{ext.lower()}"\<close>\<close>

definition normalize_ext :: "string \<Rightarrow> string" where
  "normalize_ext ext = (if take 1 ext = ''.'' then lower ext else CHR ''.'' # lower ext)"

text \<open>\<^verbatim>\<open>get_albums\<close>: the directories directly under the root, but \<^verbatim>\<open>thumbnails\<close>.\<close>

definition get_albums :: "state \<Rightarrow> error + string list" where
  "get_albums s =
     (case iterdir s [] of
        Inl e \<Rightarrow> Inl e
      | Inr ds \<Rightarrow> Inr (filter (\<lambda>d. is_dir_node (resolve s [d]) \<and> d \<noteq> ''thumbnails'') ds))"

fun make_thumb_dirs :: "string list \<Rightarrow> unit run" where
  "make_thumb_dirs [] = returnE ()"
| "make_thumb_dirs (album # albums) =
     bindE (mkdir_exist_ok [album, ''thumbnails'']) (\<lambda>_. make_thumb_dirs albums)"

text \<open>\<^verbatim>\<open>__init__\<close>: the root path itself is the tree of the state.\<close>

definition init :: "string list \<Rightarrow> int \<times> int \<Rightarrow> bool \<Rightarrow> config run" where
  "init exts tsize dry s =
     (let self = \<lparr>extensions = map normalize_ext exts, thumbnail_size = tsize, dry_run = dry\<rparr>
      in if fs s = None then (Inl ValueError, s)
         else if \<not> dry
         then bindE (liftE get_albums)
                (\<lambda>albums. bindE (make_thumb_dirs albums) (\<lambda>_. returnE self)) s
         else (Inr self, s))"

definition calculate_image_hash :: "env \<Rightarrow> state \<Rightarrow> path \<Rightarrow> error + string" where
  "calculate_image_hash E s p =
     (case resolve s p of
        None \<Rightarrow> Inl FileNotFoundError
      | Some (Dir t es) \<Rightarrow> Inl IsADirectoryError
      | Some (File b t) \<Rightarrow> Inr (sha256 E b))"

text \<open>\<^verbatim>\<open>Image.open(path)\<close> on whatever is at a path.\<close>

fun open_image :: "env \<Rightarrow> node option \<Rightarrow> error + int \<times> int" where
  "open_image E None = Inl FileNotFoundError"
| "open_image E (Some (Dir t es)) = Inl IsADirectoryError"
| "open_image E (Some (File b t)) =
     (case image_open E b of None \<Rightarrow> Inl UnidentifiedImageError | Some sz \<Rightarrow> Inr sz)"

fun verify_image :: "env \<Rightarrow> node option \<Rightarrow> bool" where
  "verify_image E (Some (File b t)) = image_verify E b"
| "verify_image E _ = False"

definition is_valid_image :: "env \<Rightarrow> config \<Rightarrow> path \<Rightarrow> state \<Rightarrow> bool \<times> state" where
  "is_valid_image E self p s =
     (if lower (suffix (pname p)) \<notin> set (extensions self) then (False, s)
      else (case open_image E (resolve s p) of
              Inl e \<Rightarrow> (False, print (InvalidImage p) s)
            | Inr sz \<Rightarrow>
                if verify_image E (resolve s p) then (True, s)
                else (False, print (InvalidImage p) s)))"

definition get_image_info :: "env \<Rightarrow> state \<Rightarrow> path \<Rightarrow> error + json" where
  "get_image_info E s p =
     (case open_image E (resolve s p) of
        Inl e \<Rightarrow> Inl e
      | Inr (w, h) \<Rightarrow>
          (case resolve s p of
             Some (File b t) \<Rightarrow>
               Inr (JObj [(''name'', JStr (pname p)),
                          (''width'', JInt w),
                          (''height'', JInt h),
                          (''size'', JInt (int (length b))),
                          (''modified'', JStr (isoformat E t)),
                          (''thumbnail'', JStr (''thumbnails/'' @ pname p)),
                          (''hash'', JStr (sha256 E b))])
           | _ \<Rightarrow> Inl FileNotFoundError))"

definition should_update_thumbnail ::
  "env \<Rightarrow> config \<Rightarrow> state \<Rightarrow> path \<Rightarrow> path \<Rightarrow> error + bool" where
  "should_update_thumbnail E self s image_path thumb_path =
     (case resolve s thumb_path of
        None \<Rightarrow> Inr True
      | Some thumb \<Rightarrow>
          (case resolve s image_path of
             None \<Rightarrow> Inl FileNotFoundError
           | Some img \<Rightarrow>
               if st_mtime img > st_mtime thumb then Inr True
               else (case open_image E (Some thumb) of
                       Inl e \<Rightarrow> Inr True
                     | Inr sz \<Rightarrow> if sz \<noteq> thumbnail_size self then Inr True else Inr False)))"

text \<open>The \<^verbatim>\<open>subprocess.run(["convert", ...], check=True)\<close> of \<^verbatim>\<open>create_thumbnail\<close> with its
  \<^verbatim>\<open>except CalledProcessError\<close>: the tool reads the source and writes the thumbnail.\<close>

definition run_convert :: "env \<Rightarrow> config \<Rightarrow> path \<Rightarrow> path \<Rightarrow> state \<Rightarrow> bool \<times> state" where
  "run_convert E self image_path thumb_path s0 =
     (let s = print (ConvertRun image_path thumb_path) s0
      in case resolve s image_path of
           Some (File b t) \<Rightarrow>
             (case convert E b (thumbnail_size self) of
                Inl stderr \<Rightarrow> (False, print (ThumbnailError image_path stderr) s)
              | Inr thumb \<Rightarrow>
                  (case bindE (open_w thumb_path) (\<lambda>_. write_all thumb_path thumb) s of
                     (Inl e, s') \<Rightarrow>
                       (False, print (ThumbnailError image_path (convert_io_error E)) s)
                   | (Inr u, s') \<Rightarrow> (True, s')))
         | _ \<Rightarrow> (False, print (ThumbnailError image_path (convert_io_error E)) s))"

definition create_thumbnail :: "env \<Rightarrow> config \<Rightarrow> path \<Rightarrow> path \<Rightarrow> bool run" where
  "create_thumbnail E self image_path thumb_path s =
     (if dry_run self then (Inr True, print (WouldCreateThumbnail thumb_path) s)
      else (case should_update_thumbnail E self s image_path thumb_path of
              Inl e \<Rightarrow> (Inl e, s)
            | Inr False \<Rightarrow> (Inr True, print (ThumbnailUpToDate thumb_path) s)
            | Inr True \<Rightarrow>
                (case run_convert E self image_path thumb_path s of
                   (ok, s') \<Rightarrow> (Inr ok, s'))))"

text \<open>\<^verbatim>\<open>read_existing_index\<close>: \<^verbatim>\<open>None\<close> is \<open>JNull\<close>.\<close>

definition read_existing_index :: "env \<Rightarrow> path \<Rightarrow> state \<Rightarrow> json \<times> state" where
  "read_existing_index E p s =
     (case resolve s p of
        None \<Rightarrow> (JNull, s)
      | Some (Dir t es) \<Rightarrow> (JNull, print (IndexWarning p) s)
      | Some (File b t) \<Rightarrow>
          (case json_load E b of
             None \<Rightarrow> (JNull, print (IndexWarning p) s)
           | Some j \<Rightarrow> (j, s)))"

subsection \<open>process\_images\<close>

text \<open>\<^verbatim>\<open>{img["name"]: img for img in ...}\<close>: a later entry of the same name replaces an
  earlier one. The dict is only ever asked for a str key.\<close>

fun index_by_name :: "json list \<Rightarrow> (json \<times> json) list \<Rightarrow> error + (json \<times> json) list" where
  "index_by_name [] d = Inr d"
| "index_by_name (img # imgs) d =
     (case py_subscript img ''name'' of
        Inl e \<Rightarrow> Inl e
      | Inr k \<Rightarrow>
          if py_hashable k then index_by_name imgs (AList.update k img d)
          else Inl TypeError)"

definition existing_images_of :: "json \<Rightarrow> error + (json \<times> json) list" where
  "existing_images_of existing_album_index =
     (if py_truthy existing_album_index
      then (case py_get existing_album_index ''images'' (JArr []) of
              Inl e \<Rightarrow> Inl e
            | Inr v \<Rightarrow>
                (case py_iter v of
                   Inl e \<Rightarrow> Inl e
                 | Inr imgs \<Rightarrow> index_by_name imgs []))
      else Inr [])"

text \<open>The files of an album with one of the extensions: one pass over the listing for each
  configured extension, in the order of the extensions.\<close>

fun collect_image_files :: "state \<Rightarrow> string \<Rightarrow> string list \<Rightarrow> error + string list" where
  "collect_image_files s album [] = Inr []"
| "collect_image_files s album (ext # exts) =
     (case iterdir s [album] of
        Inl e \<Rightarrow> Inl e
      | Inr names \<Rightarrow>
          (case collect_image_files s album exts of
             Inl e \<Rightarrow> Inl e
           | Inr rest \<Rightarrow>
               Inr (filter (\<lambda>f. is_file_node (resolve s [album, f]) \<and> lower (suffix f) = ext)
                      names @ rest)))"

text \<open>Lines 199 to 207: the entry of one image whose thumbnail is in place.\<close>

definition reconcile_image ::
  "env \<Rightarrow> (json \<times> json) list \<Rightarrow> state \<Rightarrow> path \<Rightarrow> error + json" where
  "reconcile_image E existing_images s image_path =
     (case calculate_image_hash E s image_path of
        Inl e \<Rightarrow> Inl e
      | Inr current_hash \<Rightarrow>
          (case map_of existing_images (JStr (pname image_path)) of
             None \<Rightarrow> get_image_info E s image_path
           | Some existing_image \<Rightarrow>
               if \<not> py_truthy existing_image then get_image_info E s image_path
               else (case py_get existing_image ''hash'' JNull of
                       Inl e \<Rightarrow> Inl e
                     | Inr h \<Rightarrow>
                         if py_eq h (JStr current_hash) then Inr existing_image
                         else get_image_info E s image_path)))"

text \<open>The loop over the sorted image files of one album.\<close>

fun process_image_list ::
  "env \<Rightarrow> config \<Rightarrow> string \<Rightarrow> (json \<times> json) list \<Rightarrow> string list \<Rightarrow> json list \<Rightarrow> json list run"
where
  "process_image_list E self album existing_images [] images_info s = (Inr images_info, s)"
| "process_image_list E self album existing_images (f # files) images_info s =
     (case is_valid_image E self [album, f] s of
        (False, s1) \<Rightarrow> process_image_list E self album existing_images files images_info s1
      | (True, s1) \<Rightarrow>
          (case create_thumbnail E self [album, f] [album, ''thumbnails'', f] s1 of
             (Inl e, s2) \<Rightarrow> (Inl e, s2)
           | (Inr False, s2) \<Rightarrow>
               process_image_list E self album existing_images files images_info s2
           | (Inr True, s2) \<Rightarrow>
               (case reconcile_image E existing_images s2 [album, f] of
                  Inl e \<Rightarrow> (Inl e, s2)
                | Inr entry \<Rightarrow>
                    process_image_list E self album existing_images files
                      (images_info @ [entry]) s2)))"

text \<open>\<^verbatim>\<open>not existing or existing.get(key) != new\<close>\<close>

definition index_changed :: "json \<Rightarrow> string \<Rightarrow> json \<Rightarrow> error + bool" where
  "index_changed existing key new =
     (if \<not> py_truthy existing then Inr True
      else (case py_get existing key JNull of
              Inl e \<Rightarrow> Inl e
            | Inr v \<Rightarrow> Inr (\<not> py_eq v new)))"

text \<open>Lines 209 to 231: the album's index is written, or reported up to date.\<close>

definition write_album_index ::
  "env \<Rightarrow> config \<Rightarrow> string \<Rightarrow> json \<Rightarrow> json list \<Rightarrow> unit run" where
  "write_album_index E self album existing_album_index images_info s =
     (let album_index =
            JObj [(''name'', JStr album),
                  (''images'', JArr images_info),
                  (''count'', JInt (int (length images_info))),
                  (''generated'', JStr (isoformat E (clock s))),
                  (''version'', JStr ''2.0'')]
      in if dry_run self then (Inr (), print (AlbumIndexUpToDate album True) s)
         else (case index_changed existing_album_index ''images'' (JArr images_info) of
                 Inl e \<Rightarrow> (Inl e, s)
               | Inr False \<Rightarrow> (Inr (), print (AlbumIndexUpToDate album False) s)
               | Inr True \<Rightarrow>
                   (case dump_index E [album, ''index.json''] album_index s of
                      (Inl e, s') \<Rightarrow> (Inl e, s')
                    | (Inr u, s') \<Rightarrow>
                        (Inr (), print (AlbumIndexCreated album (length images_info)) s'))))"

text \<open>The body of \<^verbatim>\<open>for album_dir in albums\<close>.\<close>

definition process_album :: "env \<Rightarrow> config \<Rightarrow> string \<Rightarrow> unit run" where
  "process_album E self album s =
     (case read_existing_index E [album, ''index.json''] s of
        (existing_album_index, s1) \<Rightarrow>
          bindE (liftE (\<lambda>_. existing_images_of existing_album_index))
            (\<lambda>existing_images.
               bindE (liftE (\<lambda>s'. collect_image_files s' album (extensions self)))
                 (\<lambda>image_files.
                    bindE (process_image_list E self album existing_images (sort image_files) [])
                      (\<lambda>images_info.
                         write_album_index E self album existing_album_index images_info)))
            s1)"

fun process_albums :: "env \<Rightarrow> config \<Rightarrow> string list \<Rightarrow> unit run" where
  "process_albums E self [] = returnE ()"
| "process_albums E self (album # albums) =
     bindE (process_album E self album) (\<lambda>_. process_albums E self albums)"

text \<open>Lines 144 to 164: the root index is written, or reported up to date.\<close>

definition write_root_index :: "env \<Rightarrow> config \<Rightarrow> string list \<Rightarrow> json \<Rightarrow> unit run" where
  "write_root_index E self albums existing_root_index s =
     (let root_index =
            JObj [(''albums'', JArr (map JStr albums)),
                  (''generated'', JStr (isoformat E (clock s))),
                  (''version'', JStr ''2.0'')]
      in if dry_run self then (Inr (), print (RootIndexUpToDate True) s)
         else (case index_changed existing_root_index ''albums'' (JArr (map JStr albums)) of
                 Inl e \<Rightarrow> (Inl e, s)
               | Inr False \<Rightarrow> (Inr (), print (RootIndexUpToDate False) s)
               | Inr True \<Rightarrow>
                   (case dump_index E [''index.json''] root_index s of
                      (Inl e, s') \<Rightarrow> (Inl e, s')
                    | (Inr u, s') \<Rightarrow> (Inr (), print (RootIndexCreated (length albums)) s'))))"

definition process_images :: "env \<Rightarrow> config \<Rightarrow> unit run" where
  "process_images E self =
     bindE (liftE get_albums)
       (\<lambda>albums s.
          case read_existing_index E [''index.json''] s of
            (existing_root_index, s1) \<Rightarrow>
              bindE (write_root_index E self albums existing_root_index)
                (\<lambda>_. process_albums E self albums) s1)"

subsection \<open>main\<close>

definition check_imagemagick :: "env \<Rightarrow> state \<Rightarrow> bool \<times> state" where
  "check_imagemagick E s =
     (case convert_version E of
        None \<Rightarrow> (False, print ImageMagickError s)
      | Some stdout \<Rightarrow> (contains ''ImageMagick'' stdout, s))"

text \<open>\<^verbatim>\<open>main\<close> after the arguments are parsed; the result is the exit status.\<close>

definition main :: "env \<Rightarrow> string list \<Rightarrow> int \<times> int \<Rightarrow> bool \<Rightarrow> state \<Rightarrow> int \<times> state" where
  "main E exts tsize dry s =
     (case check_imagemagick E s of
        (False, s1) \<Rightarrow> (1, print ImageMagickMissing s1)
      | (True, s1) \<Rightarrow>
          (case bindE (init exts tsize dry) (\<lambda>processor. process_images E processor) s1 of
             (Inl e, s2) \<Rightarrow> (1, print (ErrorMessage e) s2)
           | (Inr u, s2) \<Rightarrow> (0, print Completed s2)))"

subsection \<open>An example gallery\<close>

text \<open>A printer of manifests for the example: compact, integers in unary.\<close>

fun show_json :: "json \<Rightarrow> string" where
  "show_json JNull = ''null''"
| "show_json (JBool b) = (if b then ''true'' else ''false'')"
| "show_json (JInt n) = (if n < 0 then ''-'' else ''+'') @ replicate (nat \<bar>n\<bar>) (CHR ''|'')"
| "show_json (JStr s) = ''<'' @ s @ ''>''"
| "show_json (JArr xs) = ''['' @ concat (map (\<lambda>x. show_json x @ '','') xs) @ '']''"
| "show_json (JObj kvs) =
     ''{'' @ concat (map (\<lambda>kv. fst kv @ '':'' @ show_json (snd kv) @ '','') kvs) @ ''}''"

text \<open>A loader that knows the documents of a list: it returns the one the text prints.\<close>

definition load_known :: "json list \<Rightarrow> string \<Rightarrow> json option" where
  "load_known docs b = find (\<lambda>j. show_json j = b) docs"

definition ex_entry :: "string \<Rightarrow> string \<Rightarrow> int \<Rightarrow> json" where
  "ex_entry name bytes t =
     JObj [(''name'', JStr name), (''width'', JInt 4), (''height'', JInt 3),
           (''size'', JInt (int (length bytes))), (''modified'', JStr (replicate (nat t) (CHR ''t''))),
           (''thumbnail'', JStr (''thumbnails/'' @ name)), (''hash'', JStr (''sha:'' @ bytes))]"

definition ex_album_index :: "string \<Rightarrow> json list \<Rightarrow> int \<Rightarrow> json" where
  "ex_album_index album images t =
     JObj [(''name'', JStr album), (''images'', JArr images),
           (''count'', JInt (int (length images))),
           (''generated'', JStr (replicate (nat t) (CHR ''t''))), (''version'', JStr ''2.0'')]"

definition ex_root_index :: "string list \<Rightarrow> int \<Rightarrow> json" where
  "ex_root_index albums t =
     JObj [(''albums'', JArr (map JStr albums)),
           (''generated'', JStr (replicate (nat t) (CHR ''t''))), (''version'', JStr ''2.0'')]"

definition ex_docs :: "json list" where
  "ex_docs =
     [ex_root_index [''A'', ''B''] 7,
      ex_album_index ''A'' [ex_entry ''a1.JPG'' ''IMG1'' 5, ex_entry ''a2.png'' ''IMG2'' 6] 7,
      ex_album_index ''A'' [ex_entry ''a1.JPG'' ''IMG1'' 5, ex_entry ''a1.JPG'' ''IMG1'' 5] 7,
      ex_album_index ''B'' [] 7]"

text \<open>Sources start with \<open>IMG\<close> and decode as 4 by 3; the tool writes \<open>THUMB\<close>, which
  decodes as 2 by 2.\<close>

definition ex_env :: env where
  "ex_env =
     \<lparr>sha256 = (\<lambda>b. ''sha:'' @ b),
      image_open = (\<lambda>b. if take 3 b = ''IMG'' then Some (4, 3)
                          else if b = ''THUMB'' then Some (2, 2) else None),
      image_verify = (\<lambda>b. True),
      convert = (\<lambda>b sz. if take 3 b = ''IMG'' then Inr ''THUMB''
                          else Inl ''no decode delegate''),
      convert_io_error = ''unable to open image'',
      convert_version = Some ''Version: ImageMagick 6.9.11'',
      json_load = load_known ex_docs,
      json_dump = show_json,
      isoformat = (\<lambda>t. replicate (nat t) (CHR ''t''))\<rparr>"

definition ex_root :: node where
  "ex_root =
     Dir 0 [(''A'', Dir 0 [(''a2.png'', File ''IMG2'' 6), (''a1.JPG'', File ''IMG1'' 5),
                          (''bad.jpg'', File ''junk'' 2), (''notes.txt'', File ''hello'' 1)]),
            (''B'', Dir 0 []),
            (''thumbnails'', Dir 0 []),
            (''readme'', File ''x'' 0)]"

definition ex_state :: state where
  "ex_state = \<lparr>fs = Some ex_root, clock = 7, out = []\<rparr>"

definition ex_config :: config where
  "ex_config = \<lparr>extensions = [''.jpg'', ''.png''], thumbnail_size = (2, 2), dry_run = False\<rparr>"

text \<open>The example with dry-run on, and a gallery that holds only a root index.\<close>

definition ex_dry :: config where
  "ex_dry = ex_config\<lparr>dry_run := True\<rparr>"

definition ex_state_indexed :: state where
  "ex_state_indexed = \<lparr>fs = Some (Dir 0 [(''index.json'', File ''old'' 1)]), clock = 7, out = []\<rparr>"

text \<open>An earlier index of album \<open>A\<close> with two entries for one file: the first has the
  file's hash and a caption, the second a stale hash.\<close>

definition ex_kept :: json where
  "ex_kept = JObj [(''name'', JStr ''a1.JPG''), (''hash'', JStr ''sha:IMG1''), (''caption'', JStr ''dawn'')]"

definition ex_stale :: json where
  "ex_stale = JObj [(''name'', JStr ''a1.JPG''), (''hash'', JStr ''stale'')]"

definition ex_prior :: json where
  "ex_prior = ex_album_index ''A'' [ex_kept, ex_stale] 3"

definition ex_state_undecodable :: state where
  "ex_state_undecodable =
     \<lparr>fs = Some (Dir 0 [(''A'', Dir 0 [(''t.jpg'', File ''THUMB'' 1), (''thumbnails'', Dir 0 [])])]),
      clock = 7, out = []\<rparr>"

text \<open>The example after \<open>__init__\<close> has made the thumbnails directories, and a gallery
  whose only image opens but is refused by the tool.\<close>

definition ex_state_ready :: state where
  "ex_state_ready =
     \<lparr>fs = Some (Dir 0 [(''A'', Dir 7 [(''a2.png'', File ''IMG2'' 6), (''a1.JPG'', File ''IMG1'' 5),
                                         (''bad.jpg'', File ''junk'' 2), (''notes.txt'', File ''hello'' 1),
                                         (''thumbnails'', Dir 7 [])]),
                        (''B'', Dir 7 [(''thumbnails'', Dir 7 [])]),
                        (''thumbnails'', Dir 0 []),
                        (''readme'', File ''x'' 0)]),
      clock = 7, out = []\<rparr>"

text \<open>The example after a first complete run, some time later.\<close>

definition ex_state_done :: state where
  "ex_state_done =
     \<lparr>fs = Some (Dir 7
        [(''A'', Dir 7 [(''a2.png'', File ''IMG2'' 6), (''a1.JPG'', File ''IMG1'' 5),
                       (''bad.jpg'', File ''junk'' 2), (''notes.txt'', File ''hello'' 1),
                       (''thumbnails'', Dir 7 [(''a1.JPG'', File ''THUMB'' 7),
                                              (''a2.png'', File ''THUMB'' 7)]),
                       (''index.json'',
                        File (show_json (ex_album_index ''A''
                                [ex_entry ''a1.JPG'' ''IMG1'' 5, ex_entry ''a2.png'' ''IMG2'' 6] 7)) 7)]),
         (''B'', Dir 7 [(''thumbnails'', Dir 7 []),
                       (''index.json'', File (show_json (ex_album_index ''B'' [] 7)) 7)]),
         (''thumbnails'', Dir 0 []),
         (''readme'', File ''x'' 0),
         (''index.json'', File (show_json (ex_root_index [''A'', ''B''] 7)) 7)]),
      clock = 9, out = []\<rparr>"

text \<open>A gallery whose album index holds malformed JSON, and one where a directory stands
  at the index path of album \<open>A\<close>.\<close>

definition ex_state_malformed :: state where
  "ex_state_malformed =
     \<lparr>fs = Some (Dir 0 [(''A'', Dir 0 [(''a2.png'', File ''IMG2'' 6),
                                         (''index.json'', File ''{oops'' 3),
                                         (''thumbnails'', Dir 0 [])])]),
      clock = 7, out = []\<rparr>"

definition ex_state_index_dir :: state where
  "ex_state_index_dir =
     \<lparr>fs = Some (Dir 0 [(''A'', Dir 0 [(''index.json'', Dir 0 []), (''thumbnails'', Dir 0 [])]),
                        (''B'', Dir 0 [(''thumbnails'', Dir 0 [])])]),
      clock = 7, out = []\<rparr>"

subsection \<open>The words of the specification\<close>

text \<open>"The prior manifest's images sequence": the value under \<open>images\<close> of an index that
  is an object.\<close>

definition prior_images :: "json \<Rightarrow> json option" where
  "prior_images existing = (case existing of JObj kvs \<Rightarrow> map_of kvs ''images'' | _ \<Rightarrow> None)"

text \<open>"The new images sequence differs (by value) from the prior one."\<close>

definition images_differ :: "json \<Rightarrow> json list \<Rightarrow> bool" where
  "images_differ existing images_info =
     (case prior_images existing of None \<Rightarrow> True | Some v \<Rightarrow> \<not> py_eq v (JArr images_info))"

text \<open>"The previously persisted album manifest['s entries]": the elements of its images
  sequence.\<close>

definition prior_entries :: "json \<Rightarrow> json list" where
  "prior_entries existing =
     (case prior_images existing of Some (JArr imgs) \<Rightarrow> imgs | _ \<Rightarrow> [])"

text \<open>The last entry of a sequence that carries a given filename.\<close>

definition last_named :: "string \<Rightarrow> json list \<Rightarrow> json option" where
  "last_named f imgs = find (\<lambda>e. py_subscript e ''name'' = Inr (JStr f)) (rev imgs)"

text \<open>"Performs no filesystem mutation and no external tool invocation": the tree and the
  clock are as before, and no start of \<^verbatim>\<open>convert\<close> has been added to the record.\<close>

fun is_convert_run :: "event \<Rightarrow> bool" where
  "is_convert_run (ConvertRun i t) = True"
| "is_convert_run _ = False"

definition unchanged :: "state \<Rightarrow> state \<Rightarrow> bool" where
  "unchanged s s' =
     (fs s' = fs s \<and> clock s' = clock s
      \<and> filter is_convert_run (out s') = filter is_convert_run (out s))"



section \<open>Properties\<close>

text \<open>The definitions, for evaluating the model on the example.\<close>

lemmas ex_defs = ex_state_def ex_root_def ex_config_def ex_env_def ex_entry_def ex_album_index_def
  ex_root_index_def ex_docs_def load_known_def ex_dry_def ex_state_indexed_def ex_kept_def
  ex_stale_def ex_prior_def ex_state_ready_def ex_state_undecodable_def ex_state_done_def
  ex_state_malformed_def ex_state_index_dir_def

lemmas model_defs = bindE_def returnE_def liftE_def raiseE_def print_def resolve_def iterdir_def
  get_albums_def mkdir_exist_ok_def open_w_def write_all_def dump_index_def init_def
  normalize_ext_def lower_def lower_char_def suffix_def pname_def
  calculate_image_hash_def is_valid_image_def get_image_info_def should_update_thumbnail_def
  run_convert_def create_thumbnail_def read_existing_index_def existing_images_of_def
  reconcile_image_def index_changed_def write_album_index_def process_album_def
  write_root_index_def process_images_def check_imagemagick_def main_def

subsection \<open>Reading an existing index\<close>




subsection \<open>Stale thumbnails\<close>

text \<open>
  C4. \<open>should_update_thumbnail\<close> answers in this order: a missing thumbnail is stale,
  whatever the source is; else, for a source that exists, the thumbnail is stale exactly
  when the source's modification time is strictly greater than the thumbnail's, or the
  thumbnail does not open as an image of the configured size; in all other cases it is
  fresh. It raises nothing on an existing source.
\<close>

theorem should_update_thumbnail_decision:
  "(resolve s thumb_path = None \<longrightarrow>
      should_update_thumbnail E self s image_path thumb_path = Inr True)
   \<and> (\<forall>img. resolve s image_path = Some img \<longrightarrow>
        should_update_thumbnail E self s image_path thumb_path =
          Inr (resolve s thumb_path = None
               \<or> (\<exists>thumb. resolve s thumb_path = Some thumb
                     \<and> (st_mtime thumb < st_mtime img
                          \<or> open_image E (Some thumb) \<noteq> Inr (thumbnail_size self)))))"
  by (auto simp: should_update_thumbnail_def split: option.splits sum.splits)

theorem should_update_thumbnail_decision_witness:
  "should_update_thumbnail ex_env ex_config ex_state [''A'', ''a1.JPG''] [''A'', ''thumbnails'', ''a1.JPG'']
     = Inr True
   \<and> should_update_thumbnail ex_env ex_config ex_state [''A'', ''a2.png''] [''A'', ''a1.JPG'']
     = Inr True
   \<and> should_update_thumbnail ex_env (ex_config\<lparr>thumbnail_size := (4, 3)\<rparr>) ex_state
        [''A'', ''a1.JPG''] [''A'', ''a2.png'']
     = Inr False"
proof -
  have t: "resolve ex_state [''A'', ''thumbnails'', ''a1.JPG''] = None"
    by code_simp
  have i: "resolve ex_state [''A'', ''a2.png''] = Some (File ''IMG2'' 6)"
    by code_simp
  have j: "resolve ex_state [''A'', ''a1.JPG''] = Some (File ''IMG1'' 5)"
    by code_simp
  have o1: "open_image ex_env (Some (File ''IMG1'' 5)) = Inr (4, 3)"
    by code_simp
  have o2: "open_image ex_env (Some (File ''IMG2'' 6)) = Inr (4, 3)"
    by code_simp
  have c: "thumbnail_size ex_config = (2, 2)"
    by code_simp
  have a: "should_update_thumbnail ex_env ex_config ex_state [''A'', ''a1.JPG'']
             [''A'', ''thumbnails'', ''a1.JPG''] = Inr True"
    using should_update_thumbnail_decision
            [of ex_state "[''A'', ''thumbnails'', ''a1.JPG'']" ex_env ex_config "[''A'', ''a1.JPG'']"] t
    by blast
  have b: "should_update_thumbnail ex_env ex_config ex_state [''A'', ''a2.png''] [''A'', ''a1.JPG'']
             = Inr True"
    using should_update_thumbnail_decision
            [of ex_state "[''A'', ''a1.JPG'']" ex_env ex_config "[''A'', ''a2.png'']"] i j
    by simp
  have d: "should_update_thumbnail ex_env (ex_config\<lparr>thumbnail_size := (4, 3)\<rparr>) ex_state
             [''A'', ''a1.JPG''] [''A'', ''a2.png''] = Inr False"
    using should_update_thumbnail_decision
            [of ex_state "[''A'', ''a2.png'']" ex_env "ex_config\<lparr>thumbnail_size := (4, 3)\<rparr>"
                "[''A'', ''a1.JPG'']"] i j o2
    by simp
  show ?thesis using a b d by simp
qed

subsection \<open>A missing root\<close>

text \<open>
  C9. When the root path does not exist, \<open>__init__\<close> raises (the script's exception is a
  \<open>ValueError\<close> with the message "Root path does not exist") and leaves the state as it
  was; \<open>main\<close> then exits with status 1, having changed no file, and when ImageMagick is
  present its only output is the message of that error.
\<close>

theorem missing_root_fails:
  assumes "fs s = None"
  shows "init exts tsize dry s = (Inl ValueError, s)
       \<and> fst (main E exts tsize dry s) = 1
       \<and> fs (snd (main E exts tsize dry s)) = None
       \<and> (check_imagemagick E s = (True, s) \<longrightarrow>
            main E exts tsize dry s = (1, print (ErrorMessage ValueError) s))"
proof -
  have i: "\<And>s1. fs s1 = None \<Longrightarrow> init exts tsize dry s1 = (Inl ValueError, s1)"
    by (simp add: init_def Let_def)
  have c: "fs (snd (check_imagemagick E s)) = None"
    using assms by (simp add: check_imagemagick_def print_def split: option.splits)
  obtain ok s1 where k: "check_imagemagick E s = (ok, s1)"
    by (cases "check_imagemagick E s")
  with c have n: "fs s1 = None" by simp
  show ?thesis
    using i [OF assms] i [OF n] k n
    by (cases ok) (auto simp: main_def bindE_def print_def)
qed

theorem missing_root_fails_witness:
  "init [''.jpg''] (2, 2) False \<lparr>fs = None, clock = 7, out = []\<rparr>
     = (Inl ValueError, \<lparr>fs = None, clock = 7, out = []\<rparr>)
   \<and> main ex_env [''.jpg''] (2, 2) False \<lparr>fs = None, clock = 7, out = []\<rparr>
     = (1, \<lparr>fs = None, clock = 7, out = [ErrorMessage ValueError]\<rparr>)"
proof -
  have n: "fs \<lparr>fs = None, clock = 7, out = []\<rparr> = None"
    by simp
  have k: "check_imagemagick ex_env \<lparr>fs = None, clock = 7, out = []\<rparr>
             = (True, \<lparr>fs = None, clock = 7, out = []\<rparr>)"
    by code_simp
  have p: "print (ErrorMessage ValueError) \<lparr>fs = None, clock = 7, out = []\<rparr>
             = \<lparr>fs = None, clock = 7, out = [ErrorMessage ValueError]\<rparr>"
    by code_simp
  show ?thesis
    using missing_root_fails [OF n, of "[''.jpg'']" "(2, 2)" False ex_env] k p
    by simp
qed

subsection \<open>Writing files\<close>

lemma lookup_put_same:
  "put t p new n = Some n' \<Longrightarrow> lookup n' p = Some new"
proof (induction t p new n arbitrary: n' rule: put.induct)
  case (3 t c new m es)
  then show ?case by (auto simp: update_conv' split: option.splits)
next
  case (4 t c d p new m es)
  then show ?case by (auto simp: update_conv' split: option.splits)
qed simp_all

lemma put_defined:
  "p \<noteq> [] \<Longrightarrow> is_dir_node (lookup n (butlast p)) \<Longrightarrow> \<exists>n'. put t p new n = Some n'"
proof (induction t p new n rule: put.induct)
  case (4 t c d p new m es)
  then show ?case by (auto split: option.splits)
qed (auto split: option.splits if_splits)

lemma put_existing:
  "p \<noteq> [] \<Longrightarrow> lookup n p = Some x \<Longrightarrow> \<exists>n'. put t p new n = Some n'"
proof (induction t p new n rule: put.induct)
  case (4 t c d p new m es)
  then show ?case by (auto split: option.splits)
qed (auto split: option.splits if_splits)

lemma open_w_ok:
  assumes "p \<noteq> []" "is_dir_node (resolve s (butlast p))" "\<not> is_dir_node (resolve s p)"
  shows "\<exists>s1. open_w p s = (Inr (), s1) \<and> resolve s1 p = Some (File [] (clock s))
            \<and> clock s1 = clock s \<and> out s1 = out s"
proof -
  obtain r where r: "fs s = Some r"
    using assms(2) by (cases "fs s") (auto simp: resolve_def)
  then obtain r' where p: "put (clock s) p (File [] (clock s)) r = Some r'"
    using put_defined [OF assms(1), of r] assms(2) by (auto simp: resolve_def)
  have "open_w p s = (Inr (), s\<lparr>fs := Some r'\<rparr>)"
    using assms(3) r p
    by (cases "resolve s p") (auto simp: open_w_def split: node.splits)
  then show ?thesis
    using lookup_put_same [OF p] by (simp add: resolve_def)
qed

lemma write_all_ok:
  assumes "p \<noteq> []" "resolve s p = Some (File c t)"
  shows "\<exists>s2. write_all p b s = (Inr (), s2) \<and> resolve s2 p = Some (File b (clock s))
            \<and> clock s2 = clock s \<and> out s2 = out s"
proof -
  obtain r where r: "fs s = Some r"
    using assms(2) by (cases "fs s") (auto simp: resolve_def)
  then obtain r' where p: "put (clock s) p (File b (clock s)) r = Some r'"
    using put_existing [OF assms(1), of r "File c t" "clock s" "File b (clock s)"] assms(2)
    by (auto simp: resolve_def)
  have "write_all p b s = (Inr (), s\<lparr>fs := Some r'\<rparr>)"
    using r p by (simp add: write_all_def)
  then show ?thesis
    using lookup_put_same [OF p] by (simp add: resolve_def)
qed

lemma dump_index_ok:
  assumes "p \<noteq> []" "is_dir_node (resolve s (butlast p))" "\<not> is_dir_node (resolve s p)"
  shows "\<exists>s2. dump_index E p j s = (Inr (), s2)
            \<and> resolve s2 p = Some (File (json_dump E j) (clock s))
            \<and> clock s2 = clock s \<and> out s2 = out s"
proof -
  obtain s1 where o: "open_w p s = (Inr (), s1)" "resolve s1 p = Some (File [] (clock s))"
      "clock s1 = clock s" "out s1 = out s"
    using open_w_ok [OF assms] by blast
  obtain s2 where w: "write_all p (json_dump E j) s1 = (Inr (), s2)"
      "resolve s2 p = Some (File (json_dump E j) (clock s1))" "clock s2 = clock s1" "out s2 = out s1"
    using write_all_ok [OF assms(1) o(2)] by blast
  show ?thesis
    using o w by (simp add: dump_index_def bindE_def)
qed

text \<open>
  C8, as the script has it. A write of an index that runs to its end replaces the whole
  content of the file by the new index. It is not one step: \<open>open(path, "w")\<close> first
  leaves the file with no bytes, the earlier content gone, and \<open>json.dump\<close> fills it
  afterwards; between the two, and after a failure of the second, the file holds less
  than the new index.
\<close>

theorem manifest_write_truncates_first:
  assumes "p \<noteq> []" "is_dir_node (resolve s (butlast p))" "\<not> is_dir_node (resolve s p)"
  shows "\<exists>s1 s2. open_w p s = (Inr (), s1)
            \<and> resolve s1 p = Some (File [] (clock s))
            \<and> write_all p (json_dump E j) s1 = (Inr (), s2)
            \<and> dump_index E p j s = (Inr (), s2)
            \<and> resolve s2 p = Some (File (json_dump E j) (clock s))"
proof -
  obtain s1 where o: "open_w p s = (Inr (), s1)" "resolve s1 p = Some (File [] (clock s))"
      "clock s1 = clock s"
    using open_w_ok [OF assms] by blast
  obtain s2 where w: "write_all p (json_dump E j) s1 = (Inr (), s2)"
      "resolve s2 p = Some (File (json_dump E j) (clock s1))"
    using write_all_ok [OF assms(1) o(2)] by blast
  have "dump_index E p j s = (Inr (), s2)"
    using o w by (simp add: dump_index_def bindE_def)
  then show ?thesis
    using o w by simp
qed

theorem manifest_write_truncates_first_witness:
  "resolve (snd (open_w [''index.json''] ex_state_indexed)) [''index.json''] = Some (File [] 7)
   \<and> resolve (snd (dump_index ex_env [''index.json''] (ex_root_index [] 7) ex_state_indexed))
        [''index.json''] = Some (File (show_json (ex_root_index [] 7)) 7)"
proof -
  have a: "[''index.json''] \<noteq> []" by simp
  have b: "is_dir_node (resolve ex_state_indexed (butlast [''index.json'']))" by code_simp
  have c: "\<not> is_dir_node (resolve ex_state_indexed [''index.json''])" by code_simp
  have k: "clock ex_state_indexed = 7" by code_simp
  have d: "json_dump ex_env = show_json" by (simp add: ex_env_def)
  show ?thesis
    using manifest_write_truncates_first [OF a b c, of ex_env "ex_root_index [] 7"]
    by (auto simp: k d)
qed

text \<open>The claim as stated fails: the root index \<open>old\<close> is being replaced; after the
  \<open>open\<close> of line 160, and before \<open>json.dump\<close> has written, the file on disk is empty,
  which is neither the earlier index nor the new one.\<close>

theorem manifest_write_partial_counterexample:
  "resolve ex_state_indexed [''index.json''] = Some (File ''old'' 1)
   \<and> fst (open_w [''index.json''] ex_state_indexed) = Inr ()
   \<and> resolve (snd (open_w [''index.json''] ex_state_indexed)) [''index.json''] = Some (File [] 7)
   \<and> json_dump ex_env (ex_root_index [] 7) \<noteq> []
   \<and> dump_index ex_env [''index.json''] (ex_root_index [] 7) ex_state_indexed
      = write_all [''index.json''] (json_dump ex_env (ex_root_index [] 7))
          (snd (open_w [''index.json''] ex_state_indexed))"
  by code_simp

subsection \<open>When the album index is written\<close>

text \<open>
  C3, as the script has it. Take an album directory whose index path is not a directory,
  and an earlier index that is \<open>None\<close> (none existed, or it could not be read), another
  falsy value or an object. With dry-run off, the new index is written if and only if the
  earlier one is \<open>None\<close> or the new images sequence differs by value from the earlier
  one's; otherwise the files are left as they are and "is up to date" is printed. With
  dry-run on nothing is written whatever the comparison would say, and "would be up to
  date" is printed.
\<close>

theorem album_index_written_iff:
  assumes "is_dir_node (resolve s [album])"
    and "\<not> is_dir_node (resolve s [album, ''index.json''])"
    and "\<not> py_truthy existing \<or> (\<exists>kvs. existing = JObj kvs)"
  shows "\<exists>s'. write_album_index E self album existing images_info s = (Inr (), s')
          \<and> (if \<not> dry_run self \<and> (existing = JNull \<or> images_differ existing images_info)
              then resolve s' [album, ''index.json'']
                     = Some (File (json_dump E
                          (JObj [(''name'', JStr album),
                                 (''images'', JArr images_info),
                                 (''count'', JInt (int (length images_info))),
                                 (''generated'', JStr (isoformat E (clock s))),
                                 (''version'', JStr ''2.0'')])) (clock s))
                   \<and> out s' = out s @ [AlbumIndexCreated album (length images_info)]
              else fs s' = fs s
                   \<and> out s' = out s @ [AlbumIndexUpToDate album (dry_run self)])"
proof (cases "dry_run self")
  case True
  then show ?thesis by (simp add: write_album_index_def print_def)
next
  case False
  have ch: "index_changed existing ''images'' (JArr images_info)
              = Inr (existing = JNull \<or> images_differ existing images_info)"
    using assms(3)
    by (cases existing)
       (auto simp: index_changed_def images_differ_def prior_images_def split: option.splits)
  show ?thesis
  proof (cases "existing = JNull \<or> images_differ existing images_info")
    case c: True
    have b: "is_dir_node (resolve s (butlast [album, ''index.json'']))"
      using assms(1) by simp
    obtain s2 where d: "dump_index E [album, ''index.json'']
          (JObj [(''name'', JStr album),
                 (''images'', JArr images_info),
                 (''count'', JInt (int (length images_info))),
                 (''generated'', JStr (isoformat E (clock s))),
                 (''version'', JStr ''2.0'')]) s = (Inr (), s2)"
      "resolve s2 [album, ''index.json'']
         = Some (File (json_dump E (JObj [(''name'', JStr album),
                 (''images'', JArr images_info),
                 (''count'', JInt (int (length images_info))),
                 (''generated'', JStr (isoformat E (clock s))),
                 (''version'', JStr ''2.0'')])) (clock s))"
      "out s2 = out s"
      using dump_index_ok [OF _ b assms(2)] by blast
    show ?thesis
      using False c ch d
      by (simp add: write_album_index_def print_def resolve_def)
  next
    case c: False
    show ?thesis
      using False c ch
      by (simp add: write_album_index_def print_def)
  qed
qed

theorem album_index_written_iff_witness:
  "resolve (snd (write_album_index ex_env ex_config ''B'' JNull [] ex_state)) [''B'', ''index.json'']
     = Some (File (show_json (ex_album_index ''B'' [] 7)) 7)
   \<and> fs (snd (write_album_index ex_env ex_config ''B'' (ex_album_index ''B'' [] 3) [] ex_state))
     = fs ex_state"
proof -
  have a: "is_dir_node (resolve ex_state [''B''])" by code_simp
  have b: "\<not> is_dir_node (resolve ex_state [''B'', ''index.json''])" by code_simp
  have c: "\<not> py_truthy JNull \<or> (\<exists>kvs. JNull = JObj kvs)" by simp
  have d: "\<not> py_truthy (ex_album_index ''B'' [] 3) \<or> (\<exists>kvs. ex_album_index ''B'' [] 3 = JObj kvs)"
    by (simp add: ex_album_index_def)
  have e: "\<not> dry_run ex_config" by code_simp
  have f: "\<not> images_differ (ex_album_index ''B'' [] 3) []" by code_simp
  have g: "ex_album_index ''B'' [] 3 \<noteq> JNull" by code_simp
  have h: "json_dump ex_env (JObj [(''name'', JStr ''B''), (''images'', JArr []),
             (''count'', JInt 0),
             (''generated'', JStr (isoformat ex_env 7)),
             (''version'', JStr ''2.0'')]) = show_json (ex_album_index ''B'' [] 7)"
    by code_simp
  have k: "clock ex_state = 7" by code_simp
  show ?thesis
    using album_index_written_iff [OF a b c, of ex_env ex_config "[]"]
          album_index_written_iff [OF a b d, of ex_env ex_config "[]"]
    by (auto simp: e f g h k)
qed

text \<open>The claim as stated fails with dry-run on: album \<open>B\<close> has no index, the comparison
  would find the images changed, and nothing is written.\<close>

theorem album_index_dry_run_counterexample:
  "dry_run ex_dry
   \<and> read_existing_index ex_env [''B'', ''index.json''] ex_state = (JNull, ex_state)
   \<and> images_differ JNull []
   \<and> process_album ex_env ex_dry ''B'' ex_state
     = (Inr (), print (AlbumIndexUpToDate ''B'' True) ex_state)
   \<and> resolve (print (AlbumIndexUpToDate ''B'' True) ex_state) [''B'', ''index.json''] = None"
  by code_simp

subsection \<open>Reuse of earlier entries\<close>

lemma py_eq_JStr: "py_eq h (JStr c) = (h = JStr c)"
  by (cases h) auto

lemma find_snoc:
  "find P (xs @ [x]) = (case find P xs of Some e \<Rightarrow> Some e | None \<Rightarrow> if P x then Some x else None)"
  by (induction xs) auto

lemma index_by_name_lookup:
  "index_by_name imgs d = Inr ex \<Longrightarrow>
   map_of ex (JStr f) = (case last_named f imgs of Some e \<Rightarrow> Some e | None \<Rightarrow> map_of d (JStr f))"
proof (induction imgs arbitrary: d)
  case Nil
  then show ?case by (simp add: last_named_def)
next
  case (Cons img imgs)
  then show ?case
    by (auto simp: last_named_def find_snoc update_conv' split: sum.splits if_splits option.splits)
qed

lemma existing_images_of_lookup:
  assumes "existing_images_of existing = Inr ex"
  shows "map_of ex (JStr f) = last_named f (prior_entries existing)"
proof (cases "py_truthy existing")
  case False
  then have "ex = []" using assms by (simp add: existing_images_of_def)
  moreover have "prior_entries existing = []"
    using False by (cases existing) (auto simp: prior_entries_def prior_images_def)
  ultimately show ?thesis by (simp add: last_named_def)
next
  case True
  then obtain v imgs where v: "py_get existing ''images'' (JArr []) = Inr v" "py_iter v = Inr imgs"
      "index_by_name imgs [] = Inr ex"
    using assms by (auto simp: existing_images_of_def split: sum.splits)
  have l: "map_of ex (JStr f) = last_named f imgs"
    using index_by_name_lookup [OF v(3), of f] by (simp split: option.splits)
  obtain kvs where k: "existing = JObj kvs"
    using v(1) by (cases existing) auto
  show ?thesis
  proof (cases v)
    case (JArr xs)
    then have "prior_entries existing = imgs \<or> (imgs = [] \<and> prior_entries existing = [])"
      using v(1,2) k by (auto simp: prior_entries_def prior_images_def split: option.splits)
    then show ?thesis using l by auto
  next
    case (JObj kvs')
    have "imgs = []"
    proof (cases kvs')
      case Nil
      then show ?thesis using v(2) JObj by simp
    next
      case (Cons a list)
      then show ?thesis using v(2,3) JObj by auto
    qed
    moreover have "prior_entries existing = []"
      using v(1) k JObj by (auto simp: prior_entries_def prior_images_def split: option.splits)
    ultimately show ?thesis using l by simp
  next
    case (JStr str)
    have "imgs = []"
    proof (cases str)
      case Nil
      then show ?thesis using v(2) JStr by simp
    next
      case (Cons a list)
      then show ?thesis using v(2,3) JStr by auto
    qed
    moreover have "prior_entries existing = []"
      using v(1) k JStr by (auto simp: prior_entries_def prior_images_def split: option.splits)
    ultimately show ?thesis using l by simp
  qed (use v(2) in auto)
qed

lemma find_Some_holds: "find P xs = Some x \<Longrightarrow> P x"
  by (induction xs) (auto split: if_splits)

lemma last_named_is_object:
  "last_named f imgs = Some e \<Longrightarrow> \<exists>kvs. e = JObj kvs \<and> map_of kvs ''name'' = Some (JStr f)"
proof -
  assume "last_named f imgs = Some e"
  then have "py_subscript e ''name'' = Inr (JStr f)"
    unfolding last_named_def by (rule find_Some_holds)
  then show ?thesis
    by (cases e) (auto split: option.splits)
qed

text \<open>
  C2, as the script has it. For an image that is a file and opens, and an earlier index
  whose entries could be indexed by name: when the last entry of the earlier index with
  the image's filename carries the image's current hash, that entry is appended as it
  is, with every field it has; otherwise the fresh metadata (name, width, height, size,
  modified, thumbnail path, hash) is computed and appended.
\<close>

theorem reconcile_image_reuse:
  assumes "existing_images_of existing = Inr ex"
    and "resolve s [album, f] = Some (File b t)"
    and "image_open E b = Some (w, h)"
  shows "reconcile_image E ex s [album, f] =
           Inr (let fresh = JObj [(''name'', JStr f),
                                  (''width'', JInt w),
                                  (''height'', JInt h),
                                  (''size'', JInt (int (length b))),
                                  (''modified'', JStr (isoformat E t)),
                                  (''thumbnail'', JStr (''thumbnails/'' @ f)),
                                  (''hash'', JStr (sha256 E b))]
                in case last_named f (prior_entries existing) of
                     None \<Rightarrow> fresh
                   | Some e \<Rightarrow>
                       if py_get e ''hash'' JNull = Inr (JStr (sha256 E b)) then e else fresh)"
proof -
  have n: "pname [album, f] = f" by (simp add: pname_def)
  have g: "get_image_info E s [album, f] =
             Inr (JObj [(''name'', JStr f), (''width'', JInt w), (''height'', JInt h),
                        (''size'', JInt (int (length b))), (''modified'', JStr (isoformat E t)),
                        (''thumbnail'', JStr (''thumbnails/'' @ f)), (''hash'', JStr (sha256 E b))])"
    using assms(2,3) by (simp add: get_image_info_def n)
  have c: "calculate_image_hash E s [album, f] = Inr (sha256 E b)"
    using assms(2) by (simp add: calculate_image_hash_def)
  have l: "map_of ex (JStr f) = last_named f (prior_entries existing)"
    using assms(1) by (rule existing_images_of_lookup)
  show ?thesis
  proof (cases "last_named f (prior_entries existing)")
    case None
    then show ?thesis using l g c by (simp add: reconcile_image_def n)
  next
    case (Some e)
    then obtain kvs where e: "e = JObj kvs" "map_of kvs ''name'' = Some (JStr f)"
      using last_named_is_object by blast
    then have "kvs \<noteq> []" by auto
    then show ?thesis
      using Some l g c e by (auto simp: reconcile_image_def n py_eq_JStr)
  qed
qed


theorem reconcile_image_reuse_witness:
  "reconcile_image ex_env [(JStr ''a1.JPG'', ex_kept)] ex_state [''A'', ''a1.JPG''] = Inr ex_kept
   \<and> reconcile_image ex_env [] ex_state [''A'', ''a2.png''] = Inr (ex_entry ''a2.png'' ''IMG2'' 6)"
proof -
  have a: "existing_images_of (ex_album_index ''A'' [ex_kept] 3) = Inr [(JStr ''a1.JPG'', ex_kept)]"
    by code_simp
  have b: "resolve ex_state [''A'', ''a1.JPG''] = Some (File ''IMG1'' 5)"
    by code_simp
  have c: "image_open ex_env ''IMG1'' = Some (4, 3)"
    by code_simp
  have d: "last_named ''a1.JPG'' (prior_entries (ex_album_index ''A'' [ex_kept] 3)) = Some ex_kept"
    by code_simp
  have e: "py_get ex_kept ''hash'' JNull = Inr (JStr (sha256 ex_env ''IMG1''))"
    by code_simp
  have a': "existing_images_of JNull = Inr []"
    by code_simp
  have b': "resolve ex_state [''A'', ''a2.png''] = Some (File ''IMG2'' 6)"
    by code_simp
  have c': "image_open ex_env ''IMG2'' = Some (4, 3)"
    by code_simp
  have d': "last_named ''a2.png'' (prior_entries JNull) = None"
    by code_simp
  have f: "JObj [(''name'', JStr ''a2.png''), (''width'', JInt 4), (''height'', JInt 3),
             (''size'', JInt 4), (''modified'', JStr (isoformat ex_env 6)),
             (''thumbnail'', JStr ''thumbnails/a2.png''), (''hash'', JStr (sha256 ex_env ''IMG2''))]
           = ex_entry ''a2.png'' ''IMG2'' 6"
    by code_simp
  have r1: "reconcile_image ex_env [(JStr ''a1.JPG'', ex_kept)] ex_state [''A'', ''a1.JPG'']
              = Inr ex_kept"
    using reconcile_image_reuse [OF a b c] d e by simp
  have r2: "reconcile_image ex_env [] ex_state [''A'', ''a2.png''] = Inr (ex_entry ''a2.png'' ''IMG2'' 6)"
    using reconcile_image_reuse [OF a' b' c'] d' f by simp
  show ?thesis using r1 r2 by simp
qed

text \<open>The claim as stated fails when two entries carry the filename: the earlier index
  contains \<open>ex_kept\<close>, with the filename and the current hash, but the dict of line 173
  keeps the later \<open>ex_stale\<close>, and the fresh metadata is appended instead.\<close>

theorem reconcile_image_earlier_entry_counterexample:
  "prior_entries ex_prior = [ex_kept, ex_stale]
   \<and> py_subscript ex_kept ''name'' = Inr (JStr ''a1.JPG'')
   \<and> calculate_image_hash ex_env ex_state [''A'', ''a1.JPG''] = Inr ''sha:IMG1''
   \<and> py_get ex_kept ''hash'' JNull = Inr (JStr ''sha:IMG1'')
   \<and> existing_images_of ex_prior = Inr [(JStr ''a1.JPG'', ex_stale)]
   \<and> reconcile_image ex_env [(JStr ''a1.JPG'', ex_stale)] ex_state [''A'', ''a1.JPG'']
     = Inr (ex_entry ''a1.JPG'' ''IMG1'' 5)
   \<and> ex_entry ''a1.JPG'' ''IMG1'' 5 \<noteq> ex_kept"
  by code_simp

subsection \<open>The names of the entries of an album\<close>

lemma get_image_info_name:
  "get_image_info E s p = Inr e \<Longrightarrow> py_subscript e ''name'' = Inr (JStr (pname p))"
  by (auto simp: get_image_info_def split: sum.splits option.splits node.splits prod.splits)

lemma reconcile_image_name:
  assumes "\<forall>k v. map_of ex k = Some v \<longrightarrow> py_subscript v ''name'' = Inr k"
    and "reconcile_image E ex s p = Inr e"
  shows "py_subscript e ''name'' = Inr (JStr (pname p))"
  using assms
  by (auto simp: reconcile_image_def get_image_info_name
           split: sum.splits option.splits if_splits)

lemma index_by_name_wf:
  "index_by_name imgs d = Inr ex \<Longrightarrow>
   \<forall>k v. map_of d k = Some v \<longrightarrow> py_subscript v ''name'' = Inr k \<Longrightarrow>
   \<forall>k v. map_of ex k = Some v \<longrightarrow> py_subscript v ''name'' = Inr k"
proof (induction imgs arbitrary: d)
  case Nil
  then show ?case by simp
next
  case (Cons img imgs)
  from Cons.prems(1) obtain k where k: "py_subscript img ''name'' = Inr k" "py_hashable k"
      "index_by_name imgs (AList.update k img d) = Inr ex"
    by (auto split: sum.splits if_splits)
  have "\<forall>k' v. map_of (AList.update k img d) k' = Some v \<longrightarrow> py_subscript v ''name'' = Inr k'"
    using Cons.prems(2) k(1) by (auto simp: update_conv')
  with Cons.IH [OF k(3)] show ?case by blast
qed

lemma existing_images_of_wf:
  "existing_images_of existing = Inr ex \<Longrightarrow>
   \<forall>k v. map_of ex k = Some v \<longrightarrow> py_subscript v ''name'' = Inr k"
  by (auto simp: existing_images_of_def split: if_splits sum.splits dest!: index_by_name_wf)

lemma process_image_list_names:
  assumes "\<forall>k v. map_of ex k = Some v \<longrightarrow> py_subscript v ''name'' = Inr k"
  shows "process_image_list E self album ex files info s = (Inr result, s') \<Longrightarrow>
         \<exists>new. result = info @ new
              \<and> set (map (\<lambda>e. py_subscript e ''name'') new) \<subseteq> (\<lambda>f. Inr (JStr f)) ` set files
              \<and> (distinct files \<longrightarrow> distinct (map (\<lambda>e. py_subscript e ''name'') new))"
proof (induction files arbitrary: info s)
  case Nil
  then show ?case by simp
next
  case (Cons f files)
  obtain v s1 where v: "is_valid_image E self [album, f] s = (v, s1)"
    by (cases "is_valid_image E self [album, f] s")
  show ?case
  proof (cases v)
    case False
    then have "process_image_list E self album ex files info s1 = (Inr result, s')"
      using Cons.prems v by simp
    from Cons.IH [OF this] show ?thesis by auto
  next
    case True
    obtain r s2 where c: "create_thumbnail E self [album, f] [album, ''thumbnails'', f] s1 = (r, s2)"
      by (cases "create_thumbnail E self [album, f] [album, ''thumbnails'', f] s1")
    show ?thesis
    proof (cases r)
      case (Inl e)
      then show ?thesis using Cons.prems v True c by simp
    next
      case (Inr ok)
      show ?thesis
      proof (cases ok)
        case False
        then have "process_image_list E self album ex files info s2 = (Inr result, s')"
          using Cons.prems v True c Inr by simp
        from Cons.IH [OF this] show ?thesis by auto
      next
        case ok: True
        show ?thesis
        proof (cases "reconcile_image E ex s2 [album, f]")
          case (Inl e)
          then show ?thesis using Cons.prems v True c Inr ok by simp
        next
          case (Inr entry)
          have n: "py_subscript entry ''name'' = Inr (JStr f)"
            using reconcile_image_name [OF assms Inr] by (simp add: pname_def)
          have "process_image_list E self album ex files (info @ [entry]) s2 = (Inr result, s')"
            using Cons.prems v True c \<open>r = Inr ok\<close> ok Inr by simp
          from Cons.IH [OF this] obtain new where new: "result = (info @ [entry]) @ new"
              "set (map (\<lambda>e. py_subscript e ''name'') new) \<subseteq> (\<lambda>f. Inr (JStr f)) ` set files"
              "distinct files \<longrightarrow> distinct (map (\<lambda>e. py_subscript e ''name'') new)"
            by blast
          have "result = info @ (entry # new)" using new(1) by simp
          moreover have "set (map (\<lambda>e. py_subscript e ''name'') (entry # new))
                           \<subseteq> (\<lambda>f. Inr (JStr f)) ` set (f # files)"
            using new(2) n by auto
          moreover have "distinct (f # files) \<longrightarrow>
                           distinct (map (\<lambda>e. py_subscript e ''name'') (entry # new))"
            using new(2,3) n by auto
          ultimately show ?thesis by blast
        qed
      qed
    qed
  qed
qed

subsection \<open>An image that fails\<close>

lemma ex_state_ready_init:
  "init [''.jpg'', ''PNG''] (2, 2) False ex_state = (Inr ex_config, ex_state_ready)"
  by (simp add: ex_defs model_defs)

lemma pname_pair: "pname [album, f] = f"
  by (simp add: pname_def)

text \<open>
  C6. Take an image file \<open>f\<close> of the album's list (its extension is configured) that is
  listed once and has no entry yet. If it does not open or does not verify, the warning
  "Invalid image" is printed; if it is valid and stale but the tool exits non-zero, the
  error with the tool's error stream is printed after the tool ran. In both cases no file
  changes, the loop goes on with the remaining images from the state \<open>s1\<close> exactly as if \<open>f\<close>
  had not been listed, and whatever the loop returns has no entry named \<open>f\<close>.
\<close>

theorem failed_image_is_skipped:
  assumes "lower (suffix f) \<in> set (extensions self)"
    and "\<forall>k v. map_of ex k = Some v \<longrightarrow> py_subscript v ''name'' = Inr k"
    and "distinct (f # files)"
    and "Inr (JStr f) \<notin> set (map (\<lambda>e. py_subscript e ''name'') info)"
    and "(open_image E (resolve s [album, f]) = Inl err \<or> \<not> verify_image E (resolve s [album, f]))
           \<and> s1 = print (InvalidImage [album, f]) s
         \<or> (\<exists>sz. open_image E (resolve s [album, f]) = Inr sz) \<and> verify_image E (resolve s [album, f])
           \<and> \<not> dry_run self
           \<and> should_update_thumbnail E self s [album, f] [album, ''thumbnails'', f] = Inr True
           \<and> resolve s [album, f] = Some (File b t)
           \<and> convert E b (thumbnail_size self) = Inl stderr
           \<and> s1 = print (ThumbnailError [album, f] stderr)
                    (print (ConvertRun [album, f] [album, ''thumbnails'', f]) s)"
  shows "process_image_list E self album ex (f # files) info s
           = process_image_list E self album ex files info s1
       \<and> fs s1 = fs s
       \<and> (\<forall>result s'. process_image_list E self album ex (f # files) info s = (Inr result, s')
             \<longrightarrow> Inr (JStr f) \<notin> set (map (\<lambda>e. py_subscript e ''name'') result))"
proof -
  have step: "process_image_list E self album ex (f # files) info s
                = process_image_list E self album ex files info s1"
    using assms(1,5)
    by (auto simp: is_valid_image_def pname_pair create_thumbnail_def run_convert_def print_def
                   resolve_def)
  have frame: "fs s1 = fs s"
    using assms(5) by (auto simp: print_def)
  have excl: "Inr (JStr f) \<notin> set (map (\<lambda>e. py_subscript e ''name'') result)"
    if r: "process_image_list E self album ex (f # files) info s = (Inr result, s')" for result s'
  proof -
    from r step have "process_image_list E self album ex files info s1 = (Inr result, s')"
      by simp
    from process_image_list_names [OF assms(2) this] obtain new where
      new: "result = info @ new"
        "set (map (\<lambda>e. py_subscript e ''name'') new) \<subseteq> (\<lambda>f. Inr (JStr f)) ` set files"
      by blast
    have "Inr (JStr f) \<notin> (\<lambda>f. Inr (JStr f) :: error + json) ` set files"
      using assms(3) by auto
    then show ?thesis
      using new assms(4) by auto
  qed
  show ?thesis using step frame excl by blast
qed


theorem failed_image_is_skipped_witness:
  "process_image_list ex_env ex_config ''A'' [] [''bad.jpg'', ''a2.png''] [] ex_state
     = process_image_list ex_env ex_config ''A'' [] [''a2.png''] []
         (print (InvalidImage [''A'', ''bad.jpg'']) ex_state)
   \<and> process_image_list ex_env ex_config ''A'' [] [''t.jpg''] [] ex_state_undecodable
     = (Inr [], print (ThumbnailError [''A'', ''t.jpg''] ''no decode delegate'')
                  (print (ConvertRun [''A'', ''t.jpg''] [''A'', ''thumbnails'', ''t.jpg''])
                     ex_state_undecodable))"
proof -
  have x: "lower (suffix ''bad.jpg'') \<in> set (extensions ex_config)"
          "lower (suffix ''t.jpg'') \<in> set (extensions ex_config)"
    by code_simp+
  have w: "\<forall>k v. map_of ([] :: (json \<times> json) list) k = Some v \<longrightarrow> py_subscript v ''name'' = Inr k"
    by simp
  have d: "distinct [''bad.jpg'', ''a2.png'']" "distinct [''t.jpg'']"
    by simp_all
  have i: "Inr (JStr ''bad.jpg'') \<notin> set (map (\<lambda>e. py_subscript e ''name'') [])"
          "Inr (JStr ''t.jpg'') \<notin> set (map (\<lambda>e. py_subscript e ''name'') [])"
    by simp_all
  have o: "open_image ex_env (resolve ex_state [''A'', ''bad.jpg'']) = Inl UnidentifiedImageError"
    by code_simp
  have t1: "open_image ex_env (resolve ex_state_undecodable [''A'', ''t.jpg'']) = Inr (2, 2)"
    by code_simp
  have t2: "verify_image ex_env (resolve ex_state_undecodable [''A'', ''t.jpg''])"
    by code_simp
  have t3: "\<not> dry_run ex_config"
    by code_simp
  have t4: "should_update_thumbnail ex_env ex_config ex_state_undecodable [''A'', ''t.jpg'']
              [''A'', ''thumbnails'', ''t.jpg''] = Inr True"
    by code_simp
  have t5: "resolve ex_state_undecodable [''A'', ''t.jpg''] = Some (File ''THUMB'' 1)"
    by code_simp
  have t6: "convert ex_env ''THUMB'' (thumbnail_size ex_config) = Inl ''no decode delegate''"
    by code_simp
  have h: "(open_image ex_env (resolve ex_state [''A'', ''bad.jpg'']) = Inl UnidentifiedImageError
            \<or> \<not> verify_image ex_env (resolve ex_state [''A'', ''bad.jpg'']))
           \<and> print (InvalidImage [''A'', ''bad.jpg'']) ex_state
               = print (InvalidImage [''A'', ''bad.jpg'']) ex_state
         \<or> (\<exists>sz. open_image ex_env (resolve ex_state [''A'', ''bad.jpg'']) = Inr sz)
           \<and> verify_image ex_env (resolve ex_state [''A'', ''bad.jpg''])
           \<and> \<not> dry_run ex_config
           \<and> should_update_thumbnail ex_env ex_config ex_state [''A'', ''bad.jpg'']
                 [''A'', ''thumbnails'', ''bad.jpg''] = Inr True
           \<and> resolve ex_state [''A'', ''bad.jpg''] = Some (File [] 0)
           \<and> convert ex_env [] (thumbnail_size ex_config) = Inl []
           \<and> print (InvalidImage [''A'', ''bad.jpg'']) ex_state
               = print (ThumbnailError [''A'', ''bad.jpg''] [])
                   (print (ConvertRun [''A'', ''bad.jpg''] [''A'', ''thumbnails'', ''bad.jpg'']) ex_state)"
    by (rule disjI1, rule conjI, rule disjI1, rule o, rule refl)
  have a: "process_image_list ex_env ex_config ''A'' [] [''bad.jpg'', ''a2.png''] [] ex_state
             = process_image_list ex_env ex_config ''A'' [] [''a2.png''] []
                 (print (InvalidImage [''A'', ''bad.jpg'']) ex_state)"
    by (rule conjunct1 [OF failed_image_is_skipped [OF x(1) w d(1) i(1) h]])
  have k: "(open_image ex_env (resolve ex_state_undecodable [''A'', ''t.jpg'']) = Inl ValueError
            \<or> \<not> verify_image ex_env (resolve ex_state_undecodable [''A'', ''t.jpg'']))
           \<and> print (ThumbnailError [''A'', ''t.jpg''] ''no decode delegate'')
                 (print (ConvertRun [''A'', ''t.jpg''] [''A'', ''thumbnails'', ''t.jpg''])
                    ex_state_undecodable)
               = print (InvalidImage [''A'', ''t.jpg'']) ex_state_undecodable
         \<or> (\<exists>sz. open_image ex_env (resolve ex_state_undecodable [''A'', ''t.jpg'']) = Inr sz)
           \<and> verify_image ex_env (resolve ex_state_undecodable [''A'', ''t.jpg''])
           \<and> \<not> dry_run ex_config
           \<and> should_update_thumbnail ex_env ex_config ex_state_undecodable [''A'', ''t.jpg'']
                 [''A'', ''thumbnails'', ''t.jpg''] = Inr True
           \<and> resolve ex_state_undecodable [''A'', ''t.jpg''] = Some (File ''THUMB'' 1)
           \<and> convert ex_env ''THUMB'' (thumbnail_size ex_config) = Inl ''no decode delegate''
           \<and> print (ThumbnailError [''A'', ''t.jpg''] ''no decode delegate'')
                 (print (ConvertRun [''A'', ''t.jpg''] [''A'', ''thumbnails'', ''t.jpg''])
                    ex_state_undecodable)
               = print (ThumbnailError [''A'', ''t.jpg''] ''no decode delegate'')
                   (print (ConvertRun [''A'', ''t.jpg''] [''A'', ''thumbnails'', ''t.jpg''])
                      ex_state_undecodable)"
    by (rule disjI2, intro conjI exI, rule t1, rule t2, rule t3, rule t4, rule t5, rule t6, rule refl)
  have b: "process_image_list ex_env ex_config ''A'' [] [''t.jpg''] [] ex_state_undecodable
             = process_image_list ex_env ex_config ''A'' [] [] []
                 (print (ThumbnailError [''A'', ''t.jpg''] ''no decode delegate'')
                    (print (ConvertRun [''A'', ''t.jpg''] [''A'', ''thumbnails'', ''t.jpg''])
                       ex_state_undecodable))"
    by (rule conjunct1 [OF failed_image_is_skipped [OF x(2) w d(2) i(2) k]])
  show ?thesis
    by (rule conjI, rule a, subst b, simp only: process_image_list.simps)
qed

subsection \<open>One entry for each filename\<close>

lemma collect_image_files_suffix:
  "collect_image_files s album exts = Inr files \<Longrightarrow> f \<in> set files \<Longrightarrow> lower (suffix f) \<in> set exts"
  by (induction exts arbitrary: files) (auto split: sum.splits)

lemma collect_image_files_distinct:
  assumes "\<forall>names. iterdir s [album] = Inr names \<longrightarrow> distinct names"
  shows "distinct exts \<Longrightarrow> collect_image_files s album exts = Inr files \<Longrightarrow> distinct files"
proof (induction exts arbitrary: files)
  case Nil
  then show ?case by simp
next
  case (Cons ext exts)
  from Cons.prems(2) obtain names rest where
    n: "iterdir s [album] = Inr names" "collect_image_files s album exts = Inr rest"
       "files = filter (\<lambda>f. is_file_node (resolve s [album, f]) \<and> lower (suffix f) = ext) names @ rest"
    by (auto split: sum.splits)
  have "distinct names" using assms n(1) by blast
  moreover have "distinct rest" using Cons.IH [OF _ n(2)] Cons.prems(1) by simp
  moreover have "\<forall>f\<in>set rest. lower (suffix f) \<noteq> ext"
    using collect_image_files_suffix [OF n(2)] Cons.prems(1) by auto
  ultimately show ?case using n(3) by auto
qed

text \<open>
  C10, as the script has it. When the configured extensions are pairwise distinct after
  normalisation (and the album's listing names no file twice, as a directory does), the
  images sequence assembled for the album has at most one entry for each filename, and
  every entry carries the name of one of the album's image files.
\<close>

theorem manifest_names_unique:
  assumes "distinct (extensions self)"
    and "\<forall>names. iterdir s [album] = Inr names \<longrightarrow> distinct names"
    and "existing_images_of existing = Inr ex"
    and "collect_image_files s album (extensions self) = Inr image_files"
    and "process_image_list E self album ex (sort image_files) [] s = (Inr images_info, s')"
  shows "distinct (map (\<lambda>e. py_subscript e ''name'') images_info)
       \<and> set (map (\<lambda>e. py_subscript e ''name'') images_info) \<subseteq> (\<lambda>f. Inr (JStr f)) ` set image_files"
proof -
  have "distinct image_files"
    using collect_image_files_distinct [OF assms(2,1,4)] .
  then have d: "distinct (sort image_files)" by simp
  from process_image_list_names [OF existing_images_of_wf [OF assms(3)] assms(5)] d
  show ?thesis by auto
qed

theorem manifest_names_unique_witness:
  "fst (process_image_list ex_env ex_config ''A'' [] (sort [''a1.JPG'', ''bad.jpg'', ''a2.png'']) []
          ex_state_ready)
     = Inr [ex_entry ''a1.JPG'' ''IMG1'' 5, ex_entry ''a2.png'' ''IMG2'' 6]
   \<and> distinct (map (\<lambda>e. py_subscript e ''name'')
                 [ex_entry ''a1.JPG'' ''IMG1'' 5, ex_entry ''a2.png'' ''IMG2'' 6])"
proof -
  have a: "distinct (extensions ex_config)" by code_simp
  have n: "iterdir ex_state_ready [''A'']
             = Inr [''a2.png'', ''a1.JPG'', ''bad.jpg'', ''notes.txt'', ''thumbnails'']"
    by code_simp
  have b: "\<forall>names. iterdir ex_state_ready [''A''] = Inr names \<longrightarrow> distinct names"
    unfolding n by simp
  have c: "existing_images_of JNull = Inr []" by code_simp
  have d: "collect_image_files ex_state_ready ''A'' (extensions ex_config)
             = Inr [''a1.JPG'', ''bad.jpg'', ''a2.png'']"
    by code_simp
  have f: "fst (process_image_list ex_env ex_config ''A'' []
                  (sort [''a1.JPG'', ''bad.jpg'', ''a2.png'']) [] ex_state_ready)
             = Inr [ex_entry ''a1.JPG'' ''IMG1'' 5, ex_entry ''a2.png'' ''IMG2'' 6]"
    by (simp add: ex_defs model_defs)
  have e: "process_image_list ex_env ex_config ''A'' [] (sort [''a1.JPG'', ''bad.jpg'', ''a2.png'']) []
             ex_state_ready
     = (Inr [ex_entry ''a1.JPG'' ''IMG1'' 5, ex_entry ''a2.png'' ''IMG2'' 6],
        snd (process_image_list ex_env ex_config ''A'' [] (sort [''a1.JPG'', ''bad.jpg'', ''a2.png'']) []
               ex_state_ready))"
    by (rule prod_eqI) (simp_all only: f fst_conv snd_conv)
  have g: "distinct (map (\<lambda>e. py_subscript e ''name'')
                 [ex_entry ''a1.JPG'' ''IMG1'' 5, ex_entry ''a2.png'' ''IMG2'' 6])"
    by (rule conjunct1 [OF manifest_names_unique [OF a b c d e]])
  show ?thesis
    using f g by (rule conjI)
qed


text \<open>The claim as stated fails for the extensions \<open>.jpg\<close> and \<open>JPG\<close>: both normalise to
  \<open>.jpg\<close>, the file \<open>a1.JPG\<close> is collected once for each, and the index written for
  album \<open>A\<close> has two entries named \<open>a1.JPG\<close>.\<close>

theorem manifest_names_duplicated_counterexample:
  "init [''.jpg'', ''JPG''] (2, 2) False ex_state
     = (Inr (ex_config\<lparr>extensions := [''.jpg'', ''.jpg'']\<rparr>), ex_state_ready)
   \<and> resolve (snd (process_album ex_env (ex_config\<lparr>extensions := [''.jpg'', ''.jpg'']\<rparr>) ''A''
                     ex_state_ready)) [''A'', ''index.json'']
     = Some (File (json_dump ex_env
          (ex_album_index ''A'' [ex_entry ''a1.JPG'' ''IMG1'' 5, ex_entry ''a1.JPG'' ''IMG1'' 5] 7)) 7)"
  by (simp add: ex_defs model_defs)

subsection \<open>Dry run\<close>

lemma unchanged_refl: "unchanged s s"
  by (simp add: unchanged_def)

lemma unchanged_trans: "unchanged s s1 \<Longrightarrow> unchanged s1 s2 \<Longrightarrow> unchanged s s2"
  by (simp add: unchanged_def)

lemma unchanged_print: "\<not> is_convert_run ev \<Longrightarrow> unchanged s (print ev s)"
  by (simp add: unchanged_def print_def)

lemma unchanged_then_print:
  "unchanged s s1 \<Longrightarrow> \<not> is_convert_run ev \<Longrightarrow> unchanged s (print ev s1)"
  by (simp add: unchanged_def print_def)

lemma resolve_unchanged: "unchanged s s' \<Longrightarrow> resolve s' p = resolve s p"
  by (simp add: unchanged_def resolve_def)

lemma is_valid_image_unchanged: "unchanged s (snd (is_valid_image E self p s))"
  by (auto simp: is_valid_image_def unchanged_refl unchanged_print split: sum.splits)

lemma read_existing_index_unchanged: "unchanged s (snd (read_existing_index E p s))"
  by (auto simp: read_existing_index_def unchanged_refl unchanged_print
           split: option.splits node.splits)

lemma create_thumbnail_dry:
  "dry_run self \<Longrightarrow>
   create_thumbnail E self image_path thumb_path s = (Inr True, print (WouldCreateThumbnail thumb_path) s)"
  by (simp add: create_thumbnail_def)

lemma process_image_list_dry:
  "dry_run self \<Longrightarrow> unchanged s (snd (process_image_list E self album ex files info s))"
proof (induction files arbitrary: info s)
  case Nil
  then show ?case by (simp add: unchanged_refl)
next
  case (Cons f files)
  obtain v s1 where v: "is_valid_image E self [album, f] s = (v, s1)"
    by (cases "is_valid_image E self [album, f] s")
  then have u1: "unchanged s s1"
    using is_valid_image_unchanged [of s E self "[album, f]"] by simp
  have u2: "unchanged s (print (WouldCreateThumbnail [album, ''thumbnails'', f]) s1)"
    using u1 by (rule unchanged_trans) (simp add: unchanged_print)
  show ?case
  proof (cases v)
    case False
    then show ?thesis
      using v u1 Cons.IH [OF Cons.prems] by (auto intro: unchanged_trans)
  next
    case True
    then show ?thesis
      using v u2 Cons.prems Cons.IH [OF Cons.prems]
      by (auto simp: create_thumbnail_dry split: sum.splits intro: unchanged_trans)
  qed
qed

lemma write_album_index_dry:
  "dry_run self \<Longrightarrow> unchanged s (snd (write_album_index E self album existing info s))"
  by (simp add: write_album_index_def unchanged_print)

lemma write_root_index_dry:
  "dry_run self \<Longrightarrow> unchanged s (snd (write_root_index E self albums existing s))"
  by (simp add: write_root_index_def unchanged_print)

lemma process_album_dry:
  assumes "dry_run self"
  shows "unchanged s (snd (process_album E self album s))"
proof -
  obtain existing s1 where r: "read_existing_index E [album, ''index.json''] s = (existing, s1)"
    by (cases "read_existing_index E [album, ''index.json''] s")
  then have u1: "unchanged s s1"
    using read_existing_index_unchanged [of s E "[album, ''index.json'']"] by simp
  have "unchanged s1 (snd (process_album E self album s))"
    using r process_image_list_dry [OF assms, of s1 E album] write_album_index_dry [OF assms, of _ E album existing]
    apply (auto simp: process_album_def bindE_def liftE_def unchanged_refl split: sum.splits prod.splits)
    apply (metis snd_conv unchanged_trans)+
    done
  with u1 show ?thesis by (rule unchanged_trans)
qed


lemma process_albums_dry:
  "dry_run self \<Longrightarrow> unchanged s (snd (process_albums E self albums s))"
proof (induction albums arbitrary: s)
  case Nil
  then show ?case by (simp add: returnE_def unchanged_refl)
next
  case (Cons album albums)
  obtain r s1 where p: "process_album E self album s = (r, s1)"
    by (cases "process_album E self album s")
  then have u: "unchanged s s1"
    using process_album_dry [OF Cons.prems, of s E album] by simp
  show ?case
  proof (cases r)
    case (Inl e)
    then show ?thesis using p u by (simp add: bindE_def)
  next
    case (Inr x)
    then show ?thesis
      using p u Cons.IH [OF Cons.prems, of s1] by (auto simp: bindE_def intro: unchanged_trans)
  qed
qed

lemma process_images_dry:
  assumes "dry_run self"
  shows "unchanged s (snd (process_images E self s))"
proof (cases "get_albums s")
  case (Inl e)
  then show ?thesis by (simp add: process_images_def bindE_def liftE_def unchanged_refl)
next
  case (Inr albums)
  obtain existing s1 where r: "read_existing_index E [''index.json''] s = (existing, s1)"
    by (cases "read_existing_index E [''index.json''] s")
  then have u1: "unchanged s s1"
    using read_existing_index_unchanged [of s E "[''index.json'']"] by simp
  obtain w s2 where w: "write_root_index E self albums existing s1 = (w, s2)"
    by (cases "write_root_index E self albums existing s1")
  then have u2: "unchanged s1 s2"
    using write_root_index_dry [OF assms, of s1 E albums existing] by simp
  have u3: "unchanged s2 (snd (process_albums E self albums s2))"
    using assms by (rule process_albums_dry)
  show ?thesis
  proof (cases w)
    case (Inl e)
    then show ?thesis
      using Inr r w unchanged_trans [OF u1 u2]
      by (simp add: process_images_def bindE_def liftE_def)
  next
    case (Inr x)
    then show ?thesis
      using \<open>get_albums s = Inr albums\<close> r w unchanged_trans [OF u1 unchanged_trans [OF u2 u3]]
      by (simp add: process_images_def bindE_def liftE_def)
  qed
qed

lemma check_imagemagick_unchanged: "unchanged s (snd (check_imagemagick E s))"
  by (simp add: check_imagemagick_def unchanged_refl unchanged_print split: option.splits)

lemma init_dry:
  "init exts tsize True s = (r, s') \<Longrightarrow> s' = s \<and> (\<forall>self. r = Inr self \<longrightarrow> dry_run self)"
  by (auto simp: init_def Let_def split: if_splits)

text \<open>
  C5, as the script has it. With dry-run on, a run from \<open>main\<close> (construction and
  \<open>process_images\<close>) changes no file or directory, creates no thumbnails directory and
  starts no external tool, from every state; so does \<open>process_images\<close> alone. Every
  thumbnail is reported "Would create thumbnail" and counted as a success, without a
  look at the thumbnail on disk.
\<close>

theorem dry_run_is_pure:
  "unchanged s (snd (main E exts tsize True s))
   \<and> (dry_run self \<longrightarrow>
        unchanged s (snd (process_images E self s))
        \<and> create_thumbnail E self image_path thumb_path s
            = (Inr True, print (WouldCreateThumbnail thumb_path) s))"
proof -
  obtain ok s1 where c: "check_imagemagick E s = (ok, s1)"
    by (cases "check_imagemagick E s")
  then have u1: "unchanged s s1"
    using check_imagemagick_unchanged [of s E] by simp
  obtain r s2 where i: "init exts tsize True s1 = (r, s2)"
    by (cases "init exts tsize True s1")
  then have i': "s2 = s1" "\<forall>self. r = Inr self \<longrightarrow> dry_run self"
    using init_dry by blast+
  have m: "unchanged s (snd (main E exts tsize True s))"
  proof (cases ok)
    case False
    then show ?thesis
      using c u1 by (simp add: main_def unchanged_then_print)
  next
    case True
    show ?thesis
    proof (cases r)
      case (Inl e)
      then show ?thesis
        using c True i i' u1
        by (simp add: main_def bindE_def unchanged_then_print)
    next
      case (Inr processor)
      then have d: "dry_run processor" using i' by simp
      obtain q s3 where p: "process_images E processor s1 = (q, s3)"
        by (cases "process_images E processor s1")
      then have "unchanged s1 s3"
        using process_images_dry [OF d, of s1 E] by simp
      then have "unchanged s s3" using u1 unchanged_trans by blast
      then show ?thesis
        using c True i i' Inr p
        by (cases q) (simp_all add: main_def bindE_def unchanged_then_print)
    qed
  qed
  show ?thesis
    using m process_images_dry create_thumbnail_dry by blast
qed


theorem dry_run_is_pure_witness:
  "unchanged ex_state (snd (main ex_env [''.jpg'', ''PNG''] (2, 2) True ex_state))
   \<and> unchanged ex_state_done (snd (process_images ex_env ex_dry ex_state_done))
   \<and> create_thumbnail ex_env ex_dry [''A'', ''a1.JPG''] [''A'', ''thumbnails'', ''a1.JPG''] ex_state_done
      = (Inr True, print (WouldCreateThumbnail [''A'', ''thumbnails'', ''a1.JPG'']) ex_state_done)"
proof -
  have d: "dry_run ex_dry" by (simp add: ex_defs)
  show ?thesis
    using dry_run_is_pure [of ex_state ex_env "[''.jpg'', ''PNG'']" "(2, 2)"]
          dry_run_is_pure [of ex_state_done ex_env "[''.jpg'', ''PNG'']" "(2, 2)" ex_dry
                              "[''A'', ''a1.JPG'']" "[''A'', ''thumbnails'', ''a1.JPG'']"] d
    by blast
qed

text \<open>The claim as stated fails. On the example without any index the real run creates
  the three indexes, while the dry run, which does not evaluate the comparison of lines
  157 to 158 and 220 to 221, reports each of them as "would be up to date". And where the
  thumbnail of \<open>a1.JPG\<close> is fresh the real run skips it ("up to date"), while the dry run
  reports "Would create thumbnail".\<close>

theorem dry_run_reports_counterexample:
  "out (snd (process_images ex_env ex_dry ex_state_ready))
     = [RootIndexUpToDate True,
        WouldCreateThumbnail [''A'', ''thumbnails'', ''a1.JPG''],
        WouldCreateThumbnail [''A'', ''thumbnails'', ''a2.png''],
        InvalidImage [''A'', ''bad.jpg''],
        AlbumIndexUpToDate ''A'' True,
        AlbumIndexUpToDate ''B'' True]
   \<and> out (snd (process_images ex_env ex_config ex_state_ready))
     = [RootIndexCreated 2,
        ConvertRun [''A'', ''a1.JPG''] [''A'', ''thumbnails'', ''a1.JPG''],
        ConvertRun [''A'', ''a2.png''] [''A'', ''thumbnails'', ''a2.png''],
        InvalidImage [''A'', ''bad.jpg''],
        AlbumIndexCreated ''A'' 2,
        AlbumIndexCreated ''B'' 0]
   \<and> create_thumbnail ex_env ex_dry [''A'', ''a1.JPG''] [''A'', ''thumbnails'', ''a1.JPG''] ex_state_done
     = (Inr True, print (WouldCreateThumbnail [''A'', ''thumbnails'', ''a1.JPG'']) ex_state_done)
   \<and> create_thumbnail ex_env ex_config [''A'', ''a1.JPG''] [''A'', ''thumbnails'', ''a1.JPG''] ex_state_done
     = (Inr True, print (ThumbnailUpToDate [''A'', ''thumbnails'', ''a1.JPG'']) ex_state_done)"
  by (simp add: ex_defs model_defs)

subsection \<open>Paths that a write leaves alone\<close>










subsection \<open>What a write changes\<close>





subsection \<open>Writes below one album\<close>







lemma is_dir_not_file: "is_dir_node x \<Longrightarrow> \<not> is_file_node x"
  by (cases x rule: is_dir_node.cases) auto



subsection \<open>What the loop reads\<close>










lemma reconcile_image_same_file:
  assumes e: "resolve s' p = resolve s p"
  shows "reconcile_image E ex s' p = reconcile_image E ex s p"
  unfolding reconcile_image_def calculate_image_hash_def get_image_info_def e by (rule refl)

lemma should_update_thumbnail_same:
  assumes e: "resolve s' ip = resolve s ip" and f: "resolve s' tp = resolve s tp"
  shows "should_update_thumbnail E self s' ip tp = should_update_thumbnail E self s ip tp"
  unfolding should_update_thumbnail_def e f by (rule refl)





subsection \<open>The loop leaves the files of the album alone\<close>










subsection \<open>The loop without earlier entries\<close>









subsection \<open>An index that cannot be read\<close>








end
